theory Spec2Isabelle
  imports Main "HOL-Library.Sublist"
begin

section \<open>Go values used by archlog\<close>

text \<open>
  The program is \<^verbatim>\<open>archlog\<close> 0.5 (package \<^verbatim>\<open>main\<close>, one file). A Go \<^verbatim>\<open>string\<close> is a
  sequence of bytes, here a \<^typ>\<open>string\<close> whose characters are the bytes. A \<^verbatim>\<open>rune\<close> is
  a code point, here an \<^typ>\<open>int\<close>. A function that can panic or end the process returns an
  \<open>outcome\<close>; a Go result pair \<^verbatim>\<open>(string, error)\<close> is a sum with the error on the left.
\<close>

type_synonym rune = int

datatype panic =
    NilDereference | IndexOutOfRange | SliceBounds | NilMapAssignment | MakeSliceCap
  | OutOfMemory

datatype 'a outcome = Returned 'a | Panicked panic | Exited int

datatype error = GetError | ReadError | CouldNotFindNick | OutOfTokens

text \<open>Sequencing: a panic or an exit of the first step ends the whole.\<close>

definition andThen :: "'a outcome \<Rightarrow> ('a \<Rightarrow> 'b outcome) \<Rightarrow> 'b outcome" where
  "andThen m f =
    (case m of Returned x \<Rightarrow> f x | Panicked p \<Rightarrow> Panicked p | Exited c \<Rightarrow> Exited c)"

definition byte :: "char \<Rightarrow> int" where
  "byte c = of_char c"

definition chr :: "int \<Rightarrow> char" where
  "chr n = char_of n"

subsection \<open>Package unicode/utf8\<close>

definition RuneError :: rune where
  "RuneError = 0xFFFD"

definition inRange :: "char \<Rightarrow> int \<Rightarrow> int \<Rightarrow> bool" where
  "inRange c lo hi \<longleftrightarrow> lo \<le> byte c \<and> byte c \<le> hi"

definition secondLo :: "int \<Rightarrow> int" where
  "secondLo b0 = (if b0 = 0xE0 then 0xA0 else if b0 = 0xF0 then 0x90 else 0x80)"

definition secondHi :: "int \<Rightarrow> int" where
  "secondHi b0 = (if b0 = 0xED then 0x9F else if b0 = 0xF4 then 0x8F else 0xBF)"

text \<open>
  \<^verbatim>\<open>utf8.DecodeRuneInString\<close>: the first rune of the string and its width in bytes. An
  invalid or truncated encoding gives \<^verbatim>\<open>(RuneError, 1)\<close>, the empty string
  \<^verbatim>\<open>(RuneError, 0)\<close>.
\<close>

fun DecodeRuneInString :: "string \<Rightarrow> rune \<times> nat" where
  "DecodeRuneInString [] = (RuneError, 0)"
| "DecodeRuneInString (c0 # cs) =
    (let b0 = byte c0 in
     if b0 < 0x80 then (b0, 1)
     else if 0xC2 \<le> b0 \<and> b0 \<le> 0xDF then
       (case cs of
          c1 # _ \<Rightarrow>
            if inRange c1 0x80 0xBF then ((b0 mod 32) * 64 + byte c1 mod 64, 2)
            else (RuneError, 1)
        | _ \<Rightarrow> (RuneError, 1))
     else if 0xE0 \<le> b0 \<and> b0 \<le> 0xEF then
       (case cs of
          c1 # c2 # _ \<Rightarrow>
            if inRange c1 (secondLo b0) (secondHi b0) \<and> inRange c2 0x80 0xBF
            then ((b0 mod 16) * 4096 + (byte c1 mod 64) * 64 + byte c2 mod 64, 3)
            else (RuneError, 1)
        | _ \<Rightarrow> (RuneError, 1))
     else if 0xF0 \<le> b0 \<and> b0 \<le> 0xF4 then
       (case cs of
          c1 # c2 # c3 # _ \<Rightarrow>
            if inRange c1 (secondLo b0) (secondHi b0) \<and> inRange c2 0x80 0xBF
               \<and> inRange c3 0x80 0xBF
            then ((b0 mod 8) * 262144 + (byte c1 mod 64) * 4096 + (byte c2 mod 64) * 64
                  + byte c3 mod 64, 4)
            else (RuneError, 1)
        | _ \<Rightarrow> (RuneError, 1))
     else (RuneError, 1))"

text \<open>
  The runes of a string with the bytes of each, as \<^verbatim>\<open>for _, c := range s\<close> meets them.
\<close>

fun runeSegs :: "string \<Rightarrow> (rune \<times> string) list" where
  "runeSegs [] = []"
| "runeSegs (c # cs) =
    (let (r, n) = DecodeRuneInString (c # cs)
     in (r, c # take (n - 1) cs) # runeSegs (drop (n - 1) cs))"

definition runes :: "string \<Rightarrow> rune list" where
  "runes s = map fst (runeSegs s)"

text \<open>
  The UTF-8 encoding of a rune, as \<^verbatim>\<open>string(r)\<close> and \<^verbatim>\<open>utf8.AppendRune\<close> give it: a
  value that is no code point, or a surrogate, is encoded as \<^verbatim>\<open>RuneError\<close>.
\<close>

definition EncodeRune :: "rune \<Rightarrow> string" where
  "EncodeRune r =
    (if 0 \<le> r \<and> r < 0x80 then [chr r]
     else if 0 \<le> r \<and> r < 0x800 then [chr (0xC0 + r div 64), chr (0x80 + r mod 64)]
     else if r < 0 \<or> 0x10FFFF < r \<or> (0xD800 \<le> r \<and> r \<le> 0xDFFF)
       then [chr 0xEF, chr 0xBF, chr 0xBD]
     else if r < 0x10000
       then [chr (0xE0 + r div 4096), chr (0x80 + (r div 64) mod 64), chr (0x80 + r mod 64)]
     else [chr (0xF0 + r div 262144), chr (0x80 + (r div 4096) mod 64),
           chr (0x80 + (r div 64) mod 64), chr (0x80 + r mod 64)])"

subsection \<open>Package strings\<close>

text \<open>
  The functions of package \<^verbatim>\<open>strings\<close> that the program calls. Every separator and every
  replaced substring in the program is a non-empty literal, except the nick given to
  \<^verbatim>\<open>Contains\<close>. \<open>Index\<close>, \<open>LastIndex\<close> and \<open>Contains\<close> follow the library for an
  empty substring too; \<open>Count\<close>, \<open>Replace\<close> and \<open>SplitN\<close> are modelled for a non-empty
  one only (for an empty one they give 0, the string itself and the unsplit string, which
  the library does not).
\<close>

fun IndexFrom :: "nat \<Rightarrow> string \<Rightarrow> string \<Rightarrow> int" where
  "IndexFrom i [] sep = (if sep = [] then int i else - 1)"
| "IndexFrom i (c # cs) sep =
    (if prefix sep (c # cs) then int i else IndexFrom (Suc i) cs sep)"

definition Index :: "string \<Rightarrow> string \<Rightarrow> int" where
  "Index s sep = IndexFrom 0 s sep"

fun LastIndexFrom :: "nat \<Rightarrow> string \<Rightarrow> string \<Rightarrow> int \<Rightarrow> int" where
  "LastIndexFrom i [] sep found = (if sep = [] then int i else found)"
| "LastIndexFrom i (c # cs) sep found =
    LastIndexFrom (Suc i) cs sep (if prefix sep (c # cs) then int i else found)"

definition LastIndex :: "string \<Rightarrow> string \<Rightarrow> int" where
  "LastIndex s sep = LastIndexFrom 0 s sep (- 1)"

definition Contains :: "string \<Rightarrow> string \<Rightarrow> bool" where
  "Contains s substr \<longleftrightarrow> Index s substr \<ge> 0"

text \<open>\<^verbatim>\<open>strings.Count\<close>: the number of non-overlapping instances, found from the left.\<close>

fun Count :: "string \<Rightarrow> string \<Rightarrow> int" where
  "Count [] sep = 0"
| "Count (c # cs) sep =
    (if sep \<noteq> [] \<and> prefix sep (c # cs) then 1 + Count (drop (length sep - 1) cs) sep
     else Count cs sep)"

text \<open>
  \<^verbatim>\<open>strings.Replace(s, old, new, n)\<close>: the first \<open>n\<close> non-overlapping instances of
  \<open>old\<close> are replaced, all of them when \<open>n < 0\<close>.
\<close>

fun Replace :: "string \<Rightarrow> string \<Rightarrow> string \<Rightarrow> int \<Rightarrow> string" where
  "Replace [] old new n = []"
| "Replace (c # cs) old new n =
    (if n \<noteq> 0 \<and> old \<noteq> [] \<and> prefix old (c # cs)
     then new @ Replace (drop (length old - 1) cs) old new (n - 1)
     else c # Replace cs old new n)"

text \<open>
  \<^verbatim>\<open>strings.SplitN(s, sep, n)\<close>: \<open>piece\<close> is the substring collected since the last
  separator; with \<open>n > 0\<close> at most \<open>n\<close> substrings are returned, the last one the
  unsplit rest, with \<open>n < 0\<close> all of them, with \<open>n = 0\<close> none.
\<close>

fun splitFrom :: "string \<Rightarrow> string \<Rightarrow> string \<Rightarrow> int \<Rightarrow> string list" where
  "splitFrom piece [] sep n = [piece]"
| "splitFrom piece (c # cs) sep n =
    (if n \<noteq> 1 \<and> sep \<noteq> [] \<and> prefix sep (c # cs)
     then piece # splitFrom [] (drop (length sep - 1) cs) sep (n - 1)
     else splitFrom (piece @ [c]) cs sep n)"

definition SplitN :: "string \<Rightarrow> string \<Rightarrow> int \<Rightarrow> string list" where
  "SplitN s sep n = (if n = 0 then [] else splitFrom [] s sep n)"

definition Split :: "string \<Rightarrow> string \<Rightarrow> string list" where
  "Split s sep = SplitN s sep (- 1)"

text \<open>
  \<^verbatim>\<open>strings.Map\<close>: the mapping is applied to each rune; a negative result drops the rune.
\<close>

definition Map :: "(rune \<Rightarrow> rune) \<Rightarrow> string \<Rightarrow> string" where
  "Map mapping s =
    concat (map (\<lambda>c. let r = mapping c in if r < 0 then [] else EncodeRune r) (runes s))"

text \<open>
  \<^verbatim>\<open>strings.ToLower\<close>: on a string of ASCII bytes the letters \<^verbatim>\<open>A\<close> to \<^verbatim>\<open>Z\<close> are
  lowered. On any other string the result is that of the library's Unicode case tables,
  which are no part of the program: the parameter \<open>U\<close> stands for them.
\<close>

definition lowerASCII :: "char \<Rightarrow> char" where
  "lowerASCII c = (if 0x41 \<le> byte c \<and> byte c \<le> 0x5A then chr (byte c + 32) else c)"

definition ToLower :: "(string \<Rightarrow> string) \<Rightarrow> string \<Rightarrow> string" where
  "ToLower U s = (if list_all (\<lambda>c. byte c < 0x80) s then map lowerASCII s else U s)"

text \<open>
  \<^verbatim>\<open>strings.TrimSpace\<close>: the leading and the trailing white space runes
  (\<^verbatim>\<open>unicode.IsSpace\<close>) are removed.
\<close>

definition IsSpace :: "rune \<Rightarrow> bool" where
  "IsSpace r \<longleftrightarrow>
     r \<in> {0x09, 0x0A, 0x0B, 0x0C, 0x0D, 0x20, 0x85, 0xA0, 0x1680, 0x2028, 0x2029, 0x202F,
          0x205F, 0x3000} \<or> (0x2000 \<le> r \<and> r \<le> 0x200A)"

definition TrimSpace :: "string \<Rightarrow> string" where
  "TrimSpace s =
    concat (map snd (rev (dropWhile (\<lambda>p. IsSpace (fst p))
      (rev (dropWhile (\<lambda>p. IsSpace (fst p)) (runeSegs s))))))"

text \<open>
  A slice expression \<^verbatim>\<open>s[lo:hi]\<close> and an index expression \<^verbatim>\<open>xs[i]\<close>: outside the
  bounds the program panics, which is \<open>None\<close> here.
\<close>

definition Slice :: "string \<Rightarrow> int \<Rightarrow> int \<Rightarrow> string option" where
  "Slice s lo hi =
    (if 0 \<le> lo \<and> lo \<le> hi \<and> hi \<le> int (length s)
     then Some (take (nat (hi - lo)) (drop (nat lo) s)) else None)"

definition at :: "'a list \<Rightarrow> int \<Rightarrow> 'a option" where
  "at xs i = (if 0 \<le> i \<and> i < int (length xs) then Some (xs ! nat i) else None)"

section \<open>Nickname derivation\<close>

text \<open>
  \<^verbatim>\<open>mapRunes\<close>: the letters \<^verbatim>\<open>A-Z\<close> and \<^verbatim>\<open>a-z\<close> are kept; U+00F8 and U+00F6 give
  \<^verbatim>\<open>o\<close>, U+0420 and U+00F0 give \<^verbatim>\<open>r\<close>, U+00E4, U+00C1 and U+00E1 give \<^verbatim>\<open>a\<close>,
  U+00E9 gives \<^verbatim>\<open>e\<close>; every other rune gives the underscore.
\<close>

definition mapRunes :: "rune \<Rightarrow> rune" where
  "mapRunes letter =
    (if (byte CHR ''A'' \<le> letter \<and> letter \<le> byte CHR ''Z'')
        \<or> (byte CHR ''a'' \<le> letter \<and> letter \<le> byte CHR ''z'') then letter
     else if letter = 0xF8 \<or> letter = 0xF6 then byte CHR ''o''
     else if letter = 0x420 \<or> letter = 0xF0 then byte CHR ''r''
     else if letter = 0xE4 \<or> letter = 0xC1 \<or> letter = 0xE1 then byte CHR ''a''
     else if letter = 0xE9 then byte CHR ''e''
     else byte CHR ''_'')"

text \<open>
  \<^verbatim>\<open>generateNick\<close>. The slice \<^verbatim>\<open>name[a+1 : b]\<close> and the index \<^verbatim>\<open>firstname[0]\<close> can
  panic; \<^verbatim>\<open>string(firstname[0])\<close> converts one byte, taken as a code point, to a string.
\<close>

definition generateNick :: "(string \<Rightarrow> string) \<Rightarrow> string \<Rightarrow> string outcome" where
  "generateNick U name =
    (if Index name '' '' = - 1 then Returned name
     else
       andThen
         (if Index name ''('' \<noteq> - 1 \<and> Index name '')'' \<noteq> - 1
          then (let a = Index name ''(''; b = LastIndex name '')''
                in case Slice name (a + 1) b of
                     None \<Rightarrow> Panicked SliceBounds
                   | Some centerpart \<Rightarrow> Returned (SplitN centerpart '' '' (- 1)))
          else Returned (SplitN name '' '' (- 1)))
         (\<lambda>names.
            case (at names 0, at names (int (length names) - 1)) of
              (Some firstname, Some lastname) \<Rightarrow>
                (case at firstname 0 of
                   None \<Rightarrow> Panicked IndexOutOfRange
                 | Some b \<Rightarrow>
                     Returned
                       (Replace (ToLower U (Map mapRunes (EncodeRune (byte b) @ lastname)))
                          ''_'' '''' (- 1)))
            | _ \<Rightarrow> Panicked IndexOutOfRange))"

section \<open>The environment of a run\<close>

text \<open>
  What the program reads from outside is a parameter of the model.
  \<^item> \<open>httpGet E reqs url\<close> is the answer to \<^verbatim>\<open>client.Get(url)\<close> when \<open>reqs\<close> are the
    URLs requested before, in order: the request fails, or the body arrives whole
    (\<open>Page\<close>), or reading the body fails after some bytes (\<open>ReadFailed\<close>). Bodies are
    finite.
  \<^item> \<open>scanTexts E body\<close> stands for \<^verbatim>\<open>text/scanner\<close> on a body: it lists, for every call
    of \<^verbatim>\<open>Next\<close> that does not report the end of the input, the text that
    \<^verbatim>\<open>TokenText\<close> returns after that call. Nothing is assumed about the entries (a
    scanner whose \<^verbatim>\<open>Next\<close> reads single characters and records no token text gives
    only empty ones).
  \<^item> \<open>unicodeLower E\<close> is \<^verbatim>\<open>strings.ToLower\<close> on strings that are not pure ASCII.
  \<^item> \<open>atoi E s\<close> is \<^verbatim>\<open>strconv.Atoi(s)\<close>: the integer, or \<open>None\<close> for an error.
  \<^item> \<open>runSvn E cmd\<close> is the standard output of the \<^verbatim>\<open>svn log --xml -r HEAD:0\<close>
    subprocess, with \<^verbatim>\<open>--limit n\<close> for \<open>LogLimit n\<close>, or \<open>None\<close> when
    \<^verbatim>\<open>cmd.Output()\<close> returns an error.
  \<^item> \<open>xmlUnmarshal E bytes\<close> is \<^verbatim>\<open>xml.Unmarshal\<close> into \<^verbatim>\<open>LogEntries\<close>: the text of the
    error, or the log entries.
  \<^item> \<open>allocate E bytes\<close> tells whether the system grants the runtime a block of that
    many bytes for the backing array of a slice.
\<close>

record LogEntry =
  Revision :: string
  Author :: string
  Date :: string
  Msg :: string

datatype response = GetFailed | ReadFailed string | Page string

datatype svnCommand = LogAll | LogLimit int

record env =
  httpGet :: "string list \<Rightarrow> string \<Rightarrow> response"
  scanTexts :: "string \<Rightarrow> string list"
  unicodeLower :: "string \<Rightarrow> string"
  atoi :: "string \<Rightarrow> int option"
  runSvn :: "svnCommand \<Rightarrow> string option"
  xmlUnmarshal :: "string \<Rightarrow> string + LogEntry list"
  allocate :: "int \<Rightarrow> bool"

text \<open>
  The state of the process that the resolver touches: the global \<^verbatim>\<open>nickCache\<close>
  (\<open>None\<close> is the nil map), the URLs requested so far, and the messages written with
  \<^verbatim>\<open>log.Println\<close> (without their time stamp).
\<close>

record pstate =
  nickCache :: "(string \<rightharpoonup> string) option"
  requests :: "string list"
  logged :: "string list"

definition TU_URL :: string where
  "TU_URL = ''http://www.archlinux.org/trustedusers/''"

definition DEV_URL :: string where
  "DEV_URL = ''http://www.archlinux.org/developers/''"

definition FEL_URL :: string where
  "FEL_URL = ''http://www.archlinux.org/fellows/''"

definition PKG_URL :: string where
  "PKG_URL = ''http://www.archlinux.org/packages/''"

section \<open>The token scanner\<close>

text \<open>
  A scanner is the text of the current token and the texts that the coming calls of
  \<^verbatim>\<open>Next\<close> make current. \<^verbatim>\<open>getWebPageTokenizer\<close> returns \<^verbatim>\<open>nil, nil\<close> when the
  request fails; a body whose reading fails is scanned as far as it arrived.
\<close>

type_synonym scanner = "string \<times> string list"

definition TokenText :: "scanner \<Rightarrow> string" where
  "TokenText sc = fst sc"

definition getWebPageTokenizer :: "env \<Rightarrow> pstate \<Rightarrow> string \<Rightarrow> scanner option \<times> pstate" where
  "getWebPageTokenizer E ps url =
    (case httpGet E (requests ps) url of
       GetFailed \<Rightarrow>
         (None, ps\<lparr>requests := requests ps @ [url],
                   logged := logged ps @ [''Could not retrieve '' @ url]\<rparr>)
     | ReadFailed b \<Rightarrow> (Some ('''', scanTexts E b), ps\<lparr>requests := requests ps @ [url]\<rparr>)
     | Page b \<Rightarrow> (Some ('''', scanTexts E b), ps\<lparr>requests := requests ps @ [url]\<rparr>))"

text \<open>\<^verbatim>\<open>Skip\<close>: \<open>n\<close> calls of \<^verbatim>\<open>Next\<close>, \<open>False\<close> as soon as one reports the end.\<close>

fun Skip :: "scanner \<Rightarrow> nat \<Rightarrow> bool \<times> scanner" where
  "Skip sc 0 = (True, sc)"
| "Skip (cur, []) (Suc n) = (False, (cur, []))"
| "Skip (cur, t # ts) (Suc n) = Skip (t, ts) n"

lemma Skip_length: "Skip sc n = (b, sc') \<Longrightarrow> length (snd sc') \<le> length (snd sc)"
  by (induction sc n rule: Skip.induct) auto

lemma Skip_one_length: "(True, sc') = Skip sc (Suc 0) \<Longrightarrow> length (snd sc') < length (snd sc)"
  by (cases sc; cases "snd sc") auto

section \<open>The sources of the resolver\<close>

subsection \<open>The structured scan of a people page\<close>

text \<open>
  Lines 199 to 201: without an \<^verbatim>\<open>@\<close>, the first \<^verbatim>\<open>.\<close> of the scraped email becomes
  \<^verbatim>\<open>@\<close>.
\<close>

definition emailOfTag :: "string \<Rightarrow> string" where
  "emailOfTag addr =
    (if \<not> Contains addr ''@'' \<and> Contains addr ''.'' then Replace addr ''.'' ''@'' 1
     else addr)"

record tagScan =
  s_name :: string
  s_email :: string
  s_counter :: int
  s_email_index :: int
  s_found :: bool

definition dquote :: string where
  "dquote = [CHR 0x22]"

text \<open>
  The loop over \<^verbatim>\<open>strings.Split(string(b), "<")\<close>, \<open>i\<close> the index of \<open>tag\<close>. The two
  index expressions panic on a tag with fewer pieces; \<^verbatim>\<open>break\<close> ends the loop.
\<close>

fun scanTags :: "string \<Rightarrow> int \<Rightarrow> tagScan \<Rightarrow> string list \<Rightarrow> tagScan outcome" where
  "scanTags nick i st [] = Returned st"
| "scanTags nick i st (tag # tags) =
    (let st1 = (if Contains tag ''schema.org/Person''
                then st\<lparr>s_name := '''', s_email := '''', s_counter := 30\<rparr> else st)
     in
     if s_counter st1 > 0 then
       (if Contains tag (''itemprop='' @ dquote @ ''name'') \<and> \<not> Contains tag ''Arch Linux'' then
          (case at (Split tag dquote) 3 of
             None \<Rightarrow> Panicked IndexOutOfRange
           | Some n \<Rightarrow> scanTags nick (i + 1) (st1\<lparr>s_name := n, s_counter := s_counter st1 - 1\<rparr>) tags)
        else if Contains tag nick then
          scanTags nick (i + 1) (st1\<lparr>s_found := True, s_counter := s_counter st1 - 1\<rparr>) tags
        else if Contains tag ''Email'' then
          scanTags nick (i + 1) (st1\<lparr>s_email_index := i + 2, s_counter := s_counter st1 - 1\<rparr>) tags
        else if i = s_email_index st1 then
          (case at (Split tag ''>'') 1 of
             None \<Rightarrow> Panicked IndexOutOfRange
           | Some e \<Rightarrow>
               (let st2 = st1\<lparr>s_email := emailOfTag e\<rparr>
                in if s_found st2 then Returned st2
                   else scanTags nick (i + 1) (st2\<lparr>s_counter := s_counter st2 - 1\<rparr>) tags))
        else scanTags nick (i + 1) (st1\<lparr>s_counter := s_counter st1 - 1\<rparr>) tags)
     else scanTags nick (i + 1) st1 tags)"

definition nickToNameAndEmailWithUrl ::
  "env \<Rightarrow> pstate \<Rightarrow> string \<Rightarrow> string \<Rightarrow> ((error + string) \<times> pstate) outcome" where
  "nickToNameAndEmailWithUrl E ps nick url =
    (let ps1 = ps\<lparr>requests := requests ps @ [url]\<rparr> in
     case httpGet E (requests ps) url of
       GetFailed \<Rightarrow> Returned (Inl GetError, ps1)
     | ReadFailed b \<Rightarrow> Returned (Inl ReadError, ps1)
     | Page b \<Rightarrow>
         andThen
           (scanTags nick 0 \<lparr>s_name = '''', s_email = '''', s_counter = 0, s_email_index = - 1,
              s_found = False\<rparr> (Split b ''<''))
           (\<lambda>st. if s_found st then Returned (Inr (s_name st @ '' <'' @ s_email st @ ''>''), ps1)
                 else Returned (Inl CouldNotFindNick, ps1)))"

subsection \<open>The list box of the package search page\<close>

text \<open>
  \<^verbatim>\<open>nickToNameFromListBox\<close>. \<^verbatim>\<open>defer body.Close()\<close> on the nil \<^verbatim>\<open>body\<close> of a failed
  request panics. Both \<^verbatim>\<open>tagname\<close> and \<^verbatim>\<open>foundnick\<close> are the text of the same token.
\<close>

function listBoxLoop :: "string \<Rightarrow> scanner \<Rightarrow> error + string" where
  "listBoxLoop nick sc =
    (case Skip sc 1 of
       (False, _) \<Rightarrow> Inl OutOfTokens
     | (True, sc1) \<Rightarrow>
         (let tagname = TokenText sc1 in
          if tagname = ''option'' then
            (let foundnick = TokenText sc1 in
             if nick \<noteq> foundnick then listBoxLoop nick sc1
             else (case Skip sc1 1 of
                     (False, _) \<Rightarrow> Inl OutOfTokens
                   | (True, sc2) \<Rightarrow> Inr (TokenText sc2)))
          else listBoxLoop nick sc1))"
  by pat_completeness auto
termination
  by (relation "measure (\<lambda>(nick, sc). length (snd sc))") (auto dest: Skip_one_length)

declare listBoxLoop.simps [simp del]

definition nickToNameFromListBox ::
  "env \<Rightarrow> pstate \<Rightarrow> string \<Rightarrow> string \<Rightarrow> ((error + string) \<times> pstate) outcome" where
  "nickToNameFromListBox E ps nick url =
    (case getWebPageTokenizer E ps url of
       (None, ps1) \<Rightarrow> Panicked NilDereference
     | (Some tokenizer, ps1) \<Rightarrow> Returned (listBoxLoop nick tokenizer, ps1))"

subsection \<open>The labelled scan of a people page\<close>

text \<open>
  Lines 301 to 305: without an \<^verbatim>\<open>@\<close>, and with more than one \<^verbatim>\<open>.\<close>, the first
  \<^verbatim>\<open>.\<close> of the scraped email becomes \<^verbatim>\<open>@\<close>.
\<close>

definition emailOfToken :: "string \<Rightarrow> string" where
  "emailOfToken addr =
    (if Index addr ''@'' = - 1
     then (if Count addr ''.'' > 1 then Replace addr ''.'' ''@'' 1 else addr)
     else addr)"

text \<open>
  The loop \<^verbatim>\<open>for text != label\<close>, which \<^verbatim>\<open>nameToEmailWithUrl\<close> runs three times with
  \<open>text\<close> empty at first: \<open>None\<close> when the tokens run out.
\<close>

function seekLabel :: "string \<Rightarrow> string \<Rightarrow> scanner \<Rightarrow> scanner option" where
  "seekLabel text label sc =
    (if text \<noteq> label then
       (case Skip sc 1 of
          (False, _) \<Rightarrow> None
        | (True, sc1) \<Rightarrow> seekLabel (TokenText sc1) label sc1)
     else Some sc)"
  by pat_completeness auto
termination
  by (relation "measure (\<lambda>(text, label, sc). length (snd sc))") (auto dest: Skip_one_length)

declare seekLabel.simps [simp del]

lemma seekLabel_length:
  "seekLabel text label sc = Some sc' \<Longrightarrow> length (snd sc') \<le> length (snd sc)"
proof (induction "text" label sc rule: seekLabel.induct)
  case (1 t0 label sc)
  show ?case
  proof (cases "t0 = label")
    case True
    with "1.prems" show ?thesis by (simp add: seekLabel.simps)
  next
    case False
    obtain b sc1 where sk: "Skip sc 1 = (b, sc1)" by (cases "Skip sc 1")
    with False "1.prems" have b: "b" and rec: "seekLabel (TokenText sc1) label sc1 = Some sc'"
      by (auto simp: seekLabel.simps[of t0] split: if_splits bool.splits)
    from b sk have sk': "(True, sc1) = Skip sc 1" by simp
    from "1.IH"[OF False sk' refl rec]
    have "length (snd sc') \<le> length (snd sc1)" .
    moreover from sk have "length (snd sc1) \<le> length (snd sc)" by (rule Skip_length)
    ultimately show ?thesis by simp
  qed
qed

function emailLoop :: "(string \<Rightarrow> string) \<Rightarrow> string \<Rightarrow> scanner \<Rightarrow> error + string" where
  "emailLoop U fullname sc =
    (case Skip sc 1 of
       (False, _) \<Rightarrow> Inl OutOfTokens
     | (True, sc1) \<Rightarrow>
         (let tagname = TokenText sc1 in
          if tagname = ''a'' then
            (case seekLabel '''' ''Name:'' sc1 of
               None \<Rightarrow> Inl OutOfTokens
             | Some sc2 \<Rightarrow>
                 (case Skip sc2 4 of
                    (False, _) \<Rightarrow> Inl OutOfTokens
                  | (True, sc3) \<Rightarrow>
                      (let name = TokenText sc3 in
                       if ToLower U name \<noteq> ToLower U fullname then emailLoop U fullname sc3
                       else
                         (case seekLabel '''' ''Alias:'' sc3 of
                            None \<Rightarrow> Inl OutOfTokens
                          | Some sc4 \<Rightarrow>
                              (case Skip sc4 4 of
                                 (False, _) \<Rightarrow> Inl OutOfTokens
                               | (True, sc5) \<Rightarrow>
                                   (case seekLabel '''' ''Email:'' sc5 of
                                      None \<Rightarrow> Inl OutOfTokens
                                    | Some sc6 \<Rightarrow>
                                        (case Skip sc6 4 of
                                           (False, _) \<Rightarrow> Inl OutOfTokens
                                         | (True, sc7) \<Rightarrow>
                                             Inr (emailOfToken (TokenText sc7)))))))))
          else emailLoop U fullname sc1))"
  by pat_completeness auto
termination
proof (relation "measure (\<lambda>(U, fullname, sc). length (snd sc))", goal_cases)
  case 1
  show ?case by simp
next
  case (2 U fullname sc x1 sc1 tagname sc2 x1a sc3 name)
  from 2 have a: "length (snd sc1) < length (snd sc)"
    by (auto dest: Skip_one_length)
  from 2 have b: "length (snd sc2) \<le> length (snd sc1)"
    by (auto dest: seekLabel_length)
  from 2 have c: "length (snd sc3) \<le> length (snd sc2)"
    by (auto dest: Skip_length[OF sym])
  from a b c show ?case by simp
next
  case (3 U fullname sc x1 sc1 tagname)
  then show ?case by (auto dest: Skip_one_length)
qed

declare emailLoop.simps [simp del]

definition nameToEmailWithUrl ::
  "env \<Rightarrow> pstate \<Rightarrow> string \<Rightarrow> string \<Rightarrow> ((error + string) \<times> pstate) outcome" where
  "nameToEmailWithUrl E ps fullname url =
    (case getWebPageTokenizer E ps url of
       (None, ps1) \<Rightarrow> Panicked NilDereference
     | (Some tokenizer, ps1) \<Rightarrow>
         Returned (emailLoop (unicodeLower E) fullname tokenizer, ps1))"

section \<open>The resolver\<close>

text \<open>
  The loop over \<^verbatim>\<open>nickCache\<close> that looks for the key, and the assignment
  \<^verbatim>\<open>nickCache[nick] = v\<close>, which panics on a nil map.
\<close>

definition cacheLookup :: "pstate \<Rightarrow> string \<Rightarrow> string option" where
  "cacheLookup ps nick = (case nickCache ps of None \<Rightarrow> None | Some m \<Rightarrow> m nick)"

definition cacheStore :: "pstate \<Rightarrow> string \<Rightarrow> string \<Rightarrow> pstate outcome" where
  "cacheStore ps nick v =
    (case nickCache ps of
       None \<Rightarrow> Panicked NilMapAssignment
     | Some m \<Rightarrow> Returned (ps\<lparr>nickCache := Some (m(nick \<mapsto> v))\<rparr>))"

text \<open>The two statements \<^verbatim>\<open>nickCache[nick] = v; return v\<close> that end every branch.\<close>

definition remember :: "pstate \<Rightarrow> string \<Rightarrow> string \<Rightarrow> (string \<times> pstate) outcome" where
  "remember ps nick v = andThen (cacheStore ps nick v) (\<lambda>ps'. Returned (v, ps'))"

definition nickToNameAndEmail :: "env \<Rightarrow> pstate \<Rightarrow> string \<Rightarrow> (string \<times> pstate) outcome" where
  "nickToNameAndEmail E ps0 nick =
    (let ps = (if nickCache ps0 = None then ps0\<lparr>nickCache := Some Map.empty\<rparr> else ps0) in
     case cacheLookup ps nick of
       Some v \<Rightarrow> Returned (v, ps)
     | None \<Rightarrow>
       andThen (nickToNameAndEmailWithUrl E ps nick TU_URL) (\<lambda>(r1, ps1).
       case r1 of
         Inr nameEmail \<Rightarrow> remember ps1 nick nameEmail
       | Inl _ \<Rightarrow>
       andThen (nickToNameAndEmailWithUrl E ps1 nick DEV_URL) (\<lambda>(r2, ps2).
       case r2 of
         Inr nameEmail \<Rightarrow> remember ps2 nick nameEmail
       | Inl _ \<Rightarrow>
       andThen (nickToNameFromListBox E ps2 nick PKG_URL) (\<lambda>(r3, ps3).
       case r3 of
         Inr name \<Rightarrow>
           andThen (nameToEmailWithUrl E ps3 name TU_URL) (\<lambda>(r4, ps4).
           andThen
             (case r4 of
                Inr email \<Rightarrow> Returned (True, email, ps4)
              | Inl _ \<Rightarrow>
                  andThen (nameToEmailWithUrl E ps4 name DEV_URL) (\<lambda>(r5, ps5).
                  case r5 of
                    Inr email \<Rightarrow> Returned (True, email, ps5)
                  | Inl _ \<Rightarrow> Returned (False, '''', ps5)))
             (\<lambda>(foundEmail, email, ps6).
                remember ps6 nick
                  (if foundEmail then name @ '' <'' @ email @ ''>'' else name)))
       | Inl _ \<Rightarrow>
       andThen (nickToNameAndEmailWithUrl E ps3 nick FEL_URL) (\<lambda>(r7, ps7).
       case r7 of
         Inr nameEmail \<Rightarrow> remember ps7 nick nameEmail
       | Inl _ \<Rightarrow> remember ps7 nick nick)))))"

section \<open>The changelog\<close>

definition newline :: string where
  "newline = [CHR 0x0A]"

definition Println :: "string \<Rightarrow> string" where
  "Println s = s @ newline"

definition svnCommandOf :: "int \<Rightarrow> svnCommand" where
  "svnCommandOf entries = (if entries = - 1 then LogAll else LogLimit entries)"

text \<open>
  \<^verbatim>\<open>getSvnLogXMLbytes\<close> returns the bytes and whether \<^verbatim>\<open>cmd.Output()\<close> failed.
  \<^verbatim>\<open>getSvnLog\<close> overwrites that error with the result of \<^verbatim>\<open>xml.Unmarshal\<close>; it returns
  the entries, its error (always nil) and what it printed on standard output.
\<close>

definition getSvnLogXMLbytes :: "env \<Rightarrow> int \<Rightarrow> string \<times> bool" where
  "getSvnLogXMLbytes E entries =
    (case runSvn E (svnCommandOf entries) of
       None \<Rightarrow> ('''', True)
     | Some b \<Rightarrow> (b, False))"

definition getSvnLog :: "env \<Rightarrow> int \<Rightarrow> LogEntry list \<times> bool \<times> string" where
  "getSvnLog E entries =
    (let (xmlbytes, err) = getSvnLogXMLbytes E entries in
     case xmlUnmarshal E xmlbytes of
       Inl e \<Rightarrow> ([], False, ''error: '' @ e)
     | Inr result \<Rightarrow> (result, False, ''''))"

definition prettyDate :: "string \<Rightarrow> string outcome" where
  "prettyDate date =
    (case at (Split date ''T'') 0 of
       None \<Rightarrow> Panicked IndexOutOfRange
     | Some d \<Rightarrow> Returned d)"

definition leadStar :: string where
  "leadStar = ''    * ''"

text \<open>
  Lines 396 to 402 of \<^verbatim>\<open>outputLog\<close>, on the trimmed, non-empty message: the bullet, the
  removal of one blank line, the indentation of the lines that follow the first.
\<close>

definition formatMsg :: "string \<Rightarrow> string" where
  "formatMsg msg0 =
    (let msg1 = leadStar @ msg0;
         msg2 = (if Count msg1 (newline @ newline) = 1
                 then Replace msg1 (newline @ newline) newline 1 else msg1)
     in Replace msg2 newline (newline @ ''      '') (- 1))"

text \<open>
  The loop \<^verbatim>\<open>for i, _ := range msgitems { fmt.Println(msgitems[last-i]) }\<close>.
\<close>

definition printGathered :: "string list \<Rightarrow> string" where
  "printGathered items =
    (let last = length items - 1
     in concat (map (\<lambda>i. Println (items ! (last - i))) [0..<length items]))"

record gathered =
  first :: bool
  msgitems :: "string list"
  prevdate :: string
  prevname :: string
  prevheader :: string

text \<open>
  The loop over the log entries: \<open>out\<close> is what has been printed, \<open>g\<close> the variables
  that live across iterations.
\<close>

fun logLoop ::
  "env \<Rightarrow> pstate \<Rightarrow> gathered \<Rightarrow> string \<Rightarrow> LogEntry list
     \<Rightarrow> (string \<times> pstate \<times> gathered) outcome" where
  "logLoop E ps g out [] = Returned (out, ps, g)"
| "logLoop E ps g out (logentry # rest) =
    andThen (prettyDate (Date logentry)) (\<lambda>date.
    andThen (nickToNameAndEmail E ps (Author logentry)) (\<lambda>(name, ps1).
      (let msg = TrimSpace (Msg logentry);
           header = date @ '' '' @ name
       in
       if msg = '''' then logLoop E ps1 g out rest
       else
         (let msg = formatMsg msg;
              flush = ((date \<noteq> prevdate g \<or> name \<noteq> prevname g) \<and> length (msgitems g) > 0);
              out1 = (if flush then out @ printGathered (msgitems g) else out);
              g1 = (if flush then g\<lparr>msgitems := [], first := False\<rparr> else g);
              out2 = (if \<not> first g1 \<and> header \<noteq> prevheader g1
                        then out1 @ Println (newline @ header)
                      else if first g1 \<and> header \<noteq> prevheader g1
                        then out1 @ Println header
                      else out1)
          in logLoop E ps1
               (g1\<lparr>msgitems := msgitems g1 @ [msg], prevdate := date, prevname := name,
                   prevheader := header\<rparr>)
               out2 rest))))"

text \<open>
  A Go \<^verbatim>\<open>int\<close> has 64 bits on the platforms considered here (the gc compiler on a
  64-bit system): the result of an operation is wrapped into the range from \<open>- 2^63\<close> to
  \<open>2^63 - 1\<close>. So \<^verbatim>\<open>abs\<close> of the least \<^verbatim>\<open>int\<close> is that same negative number.
\<close>

definition wrapInt :: "int \<Rightarrow> int" where
  "wrapInt v = (v + 2 ^ 63) mod 2 ^ 64 - 2 ^ 63"

definition absInt :: "int \<Rightarrow> int" where
  "absInt x = (if x \<ge> 0 then x else wrapInt (- x))"

text \<open>
  \<^verbatim>\<open>make([]string, 0, c)\<close>, the first statement of \<^verbatim>\<open>outputLog\<close>. The runtime
  (\<^verbatim>\<open>makeslice\<close>) panics with \<^verbatim>\<open>makeslice: cap out of range\<close> when the capacity is
  negative, or when the size of the backing array, 16 bytes for each string, is above
  \<^verbatim>\<open>maxAlloc\<close>, which is \<open>2^48\<close> bytes there: that is every capacity above \<open>2^44\<close>.
  Otherwise it asks for the memory, and when the system does not grant it the runtime ends
  the process with the fatal error \<^verbatim>\<open>out of memory\<close>: status 2, as after a panic, and
  nothing can recover it. The slice returned is empty.
\<close>

definition maxAlloc :: int where
  "maxAlloc = 2 ^ 48"

definition stringSize :: int where
  "stringSize = 16"

definition makeStrings :: "env \<Rightarrow> int \<Rightarrow> string list outcome" where
  "makeStrings E c =
    (if c < 0 \<or> maxAlloc < stringSize * c then Panicked MakeSliceCap
     else if \<not> allocate E (stringSize * c) then Panicked OutOfMemory
     else Returned [])"

text \<open>
  \<^verbatim>\<open>outputLog\<close> returns what it printed on standard output and the state of the process.
  \<^verbatim>\<open>os.Exit(1)\<close> is \<open>Exited 1\<close>; what was printed before a panic or an exit is not kept.
  The slice is made before \<^verbatim>\<open>svn\<close> is run.
\<close>

definition outputLog :: "env \<Rightarrow> pstate \<Rightarrow> int \<Rightarrow> (string \<times> pstate) outcome" where
  "outputLog E ps n =
    andThen (makeStrings E (absInt n)) (\<lambda>items.
      (let (svnlog, err, printed) = getSvnLog E n in
       if err then Exited 1
       else
         andThen
           (logLoop E ps
              \<lparr>first = True, msgitems = items, prevdate = '''', prevname = '''',
               prevheader = ''''\<rparr>
              printed svnlog)
           (\<lambda>(out, ps1, g).
              if length (msgitems g) > 0
              then Returned (out @ printGathered (msgitems g) @ Println '''', ps1)
              else Returned (out, ps1))))"

text \<open>
  The status with which the process ends: 0 when \<^verbatim>\<open>main\<close> returns, 2 after a panic that
  nothing recovers (and after the fatal error \<open>OutOfMemory\<close>), the argument of
  \<^verbatim>\<open>os.Exit\<close> otherwise.
\<close>

definition exitStatus :: "'a outcome \<Rightarrow> int" where
  "exitStatus r = (case r of Returned _ \<Rightarrow> 0 | Panicked _ \<Rightarrow> 2 | Exited c \<Rightarrow> c)"

text \<open>
  \<^verbatim>\<open>main\<close>, once \<^verbatim>\<open>flag.Parse()\<close> has returned: the invocation holds the four flags
  and the remaining arguments. \<^verbatim>\<open>missing_args\<close> writes on standard error and calls
  \<^verbatim>\<open>os.Exit(1)\<close>.
\<close>

definition VERSION :: string where
  "VERSION = ''0.5''"

record invocation =
  version_long :: bool
  version_short :: bool
  help_long :: bool
  help_short :: bool
  args :: "string list"

definition usage :: string where
  "usage =
     Println ''''
     @ Println (''Generates a ChangeLog based on '' @ dquote @ ''svn log'' @ dquote @ ''.'')
     @ Println ''Tries to find names and e-mail addresses for Arch Linux related usernames''
     @ Println ''''
     @ Println ''Syntax:''
     @ Println (CHR 0x09 # ''archlog [n]'')
     @ Println ''''
     @ Println ''Arguments:''
     @ Println (CHR 0x09 # ''n - the number of entries to fetch from the log'')
     @ Println ''''
     @ Println ''Examples:''
     @ Println (CHR 0x09 # ''archlog'')
     @ Println (CHR 0x09 # ''archlog 10'')
     @ Println ''''"

definition main :: "env \<Rightarrow> pstate \<Rightarrow> invocation \<Rightarrow> (string \<times> pstate) outcome" where
  "main E ps cmdline =
    (let version = (version_long cmdline \<or> version_short cmdline);
         help = (help_long cmdline \<or> help_short cmdline)
     in
     if help then Returned (usage, ps)
     else if version then Returned (Println VERSION, ps)
     else if length (args cmdline) = 1 then
       (case at (args cmdline) 0 of
          None \<Rightarrow> Panicked IndexOutOfRange
        | Some a \<Rightarrow>
            (case atoi E a of
               None \<Rightarrow> Exited 1
             | Some n \<Rightarrow> if n \<le> 0 then Exited 1 else outputLog E ps n))
     else outputLog E ps (- 1))"

section \<open>Notions used to state the properties\<close>

subsection \<open>Messages and email values\<close>

text \<open>
  The continuation indent put after every newline; the number of blank lines inside a
  text, that is of places where a newline follows a newline; an email value with its first
  dot turned into an at sign; the number of dots.
\<close>

definition indented :: "string \<Rightarrow> string" where
  "indented s = concat (map (\<lambda>x. if x = CHR 0x0A then newline @ ''      '' else [x]) s)"

fun blankLines :: "string \<Rightarrow> nat" where
  "blankLines (x # y # zs) =
     (if x = CHR 0x0A \<and> y = CHR 0x0A then 1 else 0) + blankLines (y # zs)"
| "blankLines _ = 0"

definition firstDotToAt :: "string \<Rightarrow> string" where
  "firstDotToAt s =
     takeWhile (\<lambda>x. x \<noteq> CHR ''.'') s @ ''@'' @ tl (dropWhile (\<lambda>x. x \<noteq> CHR ''.'') s)"

definition dots :: "string \<Rightarrow> nat" where
  "dots s = length (filter (\<lambda>x. x = CHR ''.'') s)"

subsection \<open>The sources as strategies\<close>

text \<open>
  What a source answers when \<open>rq\<close> are the URLs requested before: the result of the
  program's function, without the state.
\<close>

definition asked :: "string list \<Rightarrow> pstate" where
  "asked rq = \<lparr>nickCache = None, requests = rq, logged = []\<rparr>"

definition peopleAnswer :: "env \<Rightarrow> string list \<Rightarrow> string \<Rightarrow> string \<Rightarrow> (error + string) outcome" where
  "peopleAnswer E rq nick url =
     andThen (nickToNameAndEmailWithUrl E (asked rq) nick url) (\<lambda>(r, _). Returned r)"

definition listBoxAnswer :: "env \<Rightarrow> string list \<Rightarrow> string \<Rightarrow> string \<Rightarrow> (error + string) outcome" where
  "listBoxAnswer E rq nick url =
     andThen (nickToNameFromListBox E (asked rq) nick url) (\<lambda>(r, _). Returned r)"

definition emailAnswer :: "env \<Rightarrow> string list \<Rightarrow> string \<Rightarrow> string \<Rightarrow> (error + string) outcome" where
  "emailAnswer E rq fullname url =
     andThen (nameToEmailWithUrl E (asked rq) fullname url) (\<lambda>(r, _). Returned r)"

text \<open>
  The resolver as the specification designs it: an ordered list of strategies, each an
  attempt to resolve the handle; the list is walked and the first success wins. A strategy
  is given the URLs requested before and returns the URLs it requested with its result.
  Source C looks the handle up in the list box; on a match it has the bare name, looks the
  email up by full name on the page of Source A and, failing that, of Source B, and
  appends the email if one is found.
\<close>

type_synonym source = "env \<Rightarrow> string list \<Rightarrow> string \<Rightarrow> (string list \<times> (error + string)) outcome"

definition sourceA :: source where
  "sourceA E rq nick = andThen (peopleAnswer E rq nick TU_URL) (\<lambda>r. Returned ([TU_URL], r))"

definition sourceB :: source where
  "sourceB E rq nick = andThen (peopleAnswer E rq nick DEV_URL) (\<lambda>r. Returned ([DEV_URL], r))"

definition sourceD :: source where
  "sourceD E rq nick = andThen (peopleAnswer E rq nick FEL_URL) (\<lambda>r. Returned ([FEL_URL], r))"

definition sourceC :: source where
  "sourceC E rq nick =
     andThen (listBoxAnswer E rq nick PKG_URL) (\<lambda>r.
     case r of
       Inl e \<Rightarrow> Returned ([PKG_URL], Inl e)
     | Inr bare \<Rightarrow>
         andThen (emailAnswer E (rq @ [PKG_URL]) bare TU_URL) (\<lambda>a.
         case a of
           Inr addr \<Rightarrow> Returned ([PKG_URL, TU_URL], Inr (bare @ '' <'' @ addr @ ''>''))
         | Inl _ \<Rightarrow>
             andThen (emailAnswer E (rq @ [PKG_URL, TU_URL]) bare DEV_URL) (\<lambda>b.
             case b of
               Inr addr \<Rightarrow>
                 Returned ([PKG_URL, TU_URL, DEV_URL], Inr (bare @ '' <'' @ addr @ ''>''))
             | Inl _ \<Rightarrow> Returned ([PKG_URL, TU_URL, DEV_URL], Inr bare))))"

fun firstSuccess ::
  "source list \<Rightarrow> env \<Rightarrow> string list \<Rightarrow> string \<Rightarrow> (string list \<times> string option) outcome" where
  "firstSuccess [] E rq nick = Returned ([], None)"
| "firstSuccess (s # ss) E rq nick =
     andThen (s E rq nick) (\<lambda>(tr, r).
     case r of
       Inr v \<Rightarrow> Returned (tr, Some v)
     | Inl _ \<Rightarrow>
         andThen (firstSuccess ss E (rq @ tr) nick) (\<lambda>(tr', r'). Returned (tr @ tr', r')))"

definition cacheOf :: "pstate \<Rightarrow> string \<rightharpoonup> string" where
  "cacheOf ps = (case nickCache ps of None \<Rightarrow> Map.empty | Some m \<Rightarrow> m)"

definition resolveSpec :: "env \<Rightarrow> pstate \<Rightarrow> string \<Rightarrow> (string \<times> pstate) outcome" where
  "resolveSpec E ps nick =
     andThen (firstSuccess [sourceA, sourceB, sourceC, sourceD] E (requests ps) nick)
       (\<lambda>(tr, r).
          let v = (case r of Some identity \<Rightarrow> identity | None \<Rightarrow> nick)
          in Returned (v, ps\<lparr>nickCache := Some ((cacheOf ps)(nick \<mapsto> v)),
                            requests := requests ps @ tr\<rparr>))"

subsection \<open>Environments and inputs of the examples\<close>

text \<open>
  A process that has made no request yet; a network on which every request fails; a
  network that serves one page, with the token texts the scanner reports on it.
\<close>

definition fresh :: pstate where
  "fresh = \<lparr>nickCache = None, requests = [], logged = []\<rparr>"

definition offline :: env where
  "offline =
     \<lparr>httpGet = (\<lambda>rq url. GetFailed), scanTexts = (\<lambda>b. []), unicodeLower = (\<lambda>s. s),
      atoi = (\<lambda>s. None),
      runSvn = (\<lambda>c. None), xmlUnmarshal = (\<lambda>b. Inl ''EOF''),
      allocate = (\<lambda>bytes. bytes \<le> 2 ^ 30)\<rparr>"

definition serving :: "string \<Rightarrow> string list \<Rightarrow> env" where
  "serving body texts =
     \<lparr>httpGet = (\<lambda>rq url. Page body), scanTexts = (\<lambda>b. texts), unicodeLower = (\<lambda>s. s),
      atoi = (\<lambda>s. None),
      runSvn = (\<lambda>c. None), xmlUnmarshal = (\<lambda>b. Inl ''EOF''),
      allocate = (\<lambda>bytes. bytes \<le> 2 ^ 30)\<rparr>"

text \<open>
  A people page with one person, whose email is written \<^verbatim>\<open>a.liddell\<close>; the same with a
  \<^verbatim>\<open>name\<close> tag that lacks its quoted value.
\<close>

definition personPage :: string where
  "personPage =
     ''<div itemtype='' @ dquote @ ''http://schema.org/Person'' @ dquote @ ''>''
     @ ''<h3 itemprop='' @ dquote @ ''name'' @ dquote @ '' content='' @ dquote @ ''Alice A''
     @ dquote @ ''></h3><td>alice</td><th>Email:</th><td>a.liddell</td>''"

definition brokenPage :: string where
  "brokenPage =
     ''<div itemtype='' @ dquote @ ''http://schema.org/Person'' @ dquote @ ''>''
     @ ''<h3 itemprop='' @ dquote @ ''name></h3>''"

text \<open>
  Token texts in which the list box gives the handle \<^verbatim>\<open>option\<close> the name
  \<^verbatim>\<open>Otto Normal\<close>, and a labelled entry gives that name an email.
\<close>

definition ottoTexts :: "string list" where
  "ottoTexts =
     [''select'', ''option'', ''Otto Normal'', ''a'', ''Name:'', ''x'', ''x'', ''x'',
      ''OTTO normal'', ''Alias:'', ''x'', ''x'', ''x'', ''otto'', ''Email:'', ''x'', ''x'',
      ''x'', ''otto.example.org'']"

text \<open>
  A network on which the package search page and its token texts arrive, the people pages
  are empty at the first request, and every later request fails.
\<close>

definition flaky :: env where
  "flaky =
     \<lparr>httpGet = (\<lambda>rq url. if length rq < 3 then Page '''' else GetFailed),
      scanTexts = (\<lambda>b. ottoTexts), unicodeLower = (\<lambda>s. s),
      atoi = (\<lambda>s. None),
      runSvn = (\<lambda>c. None), xmlUnmarshal = (\<lambda>b. Inl ''EOF''),
      allocate = (\<lambda>bytes. bytes \<le> 2 ^ 30)\<rparr>"

text \<open>The three log entries of the grouping example, oldest first.\<close>

definition exampleLog :: "LogEntry list" where
  "exampleLog =
     [\<lparr>Revision = ''1'', Author = ''alice'', Date = ''2024-01-01T09:30:00.000000Z'',
       Msg = ''msgA''\<rparr>,
      \<lparr>Revision = ''2'', Author = ''alice'', Date = ''2024-01-01T17:45:00.000000Z'',
       Msg = ''msgB''\<rparr>,
      \<lparr>Revision = ''3'', Author = ''bob'', Date = ''2024-01-02T08:00:00.000000Z'',
       Msg = ''msgC''\<rparr>]"

definition exampleEnv :: env where
  "exampleEnv =
     \<lparr>httpGet = (\<lambda>rq url. Page ''''), scanTexts = (\<lambda>b. []), unicodeLower = (\<lambda>s. s),
      atoi = (\<lambda>s. None),
      runSvn = (\<lambda>c. Some ''<log>''), xmlUnmarshal = (\<lambda>b. Inr exampleLog),
      allocate = (\<lambda>bytes. bytes \<le> 2 ^ 30)\<rparr>"

text \<open>The same log read while every request of a page fails.\<close>

definition unreachableEnv :: env where
  "unreachableEnv =
     \<lparr>httpGet = (\<lambda>rq url. GetFailed), scanTexts = (\<lambda>b. []), unicodeLower = (\<lambda>s. s),
      atoi = (\<lambda>s. None),
      runSvn = (\<lambda>c. Some ''<log>''), xmlUnmarshal = (\<lambda>b. Inr exampleLog),
      allocate = (\<lambda>bytes. bytes \<le> 2 ^ 30)\<rparr>"

definition garbledEnv :: env where
  "garbledEnv =
     \<lparr>httpGet = (\<lambda>rq url. Page ''''), scanTexts = (\<lambda>b. []), unicodeLower = (\<lambda>s. s),
      atoi = (\<lambda>s. if s = ''5'' then Some 5 else None),
      runSvn = (\<lambda>c. Some ''not xml''), xmlUnmarshal = (\<lambda>b. Inl ''EOF''),
      allocate = (\<lambda>bytes. bytes \<le> 2 ^ 30)\<rparr>"

text \<open>An invocation without flags.\<close>

definition plain :: "string list \<Rightarrow> invocation" where
  "plain xs =
     \<lparr>version_long = False, version_short = False, help_long = False, help_short = False,
      args = xs\<rparr>"

section \<open>Properties of the string functions\<close>

lemmas go_simps = byte_def chr_def char_of_def RuneError_def inRange_def secondLo_def
  secondHi_def runes_def EncodeRune_def Index_def LastIndex_def Contains_def SplitN_def
  Split_def Map_def lowerASCII_def ToLower_def IsSpace_def TrimSpace_def Slice_def at_def

lemma IndexFrom_single:
  "IndexFrom i s [c] =
    (if c \<in> set s then int i + int (length (takeWhile (\<lambda>x. x \<noteq> c) s)) else - 1)"
  by (induction s arbitrary: i) auto

lemma Index_single_none: "Index s [c] = - 1 \<longleftrightarrow> c \<notin> set s"
  by (simp add: Index_def IndexFrom_single)

lemma Contains_single: "Contains s [c] \<longleftrightarrow> c \<in> set s"
  by (simp add: Contains_def Index_def IndexFrom_single)

lemma Count_single: "Count s [c] = int (length (filter (\<lambda>x. x = c) s))"
  by (induction s) auto

lemma Replace_zero: "Replace s old new 0 = s"
  by (induction s) auto

lemma Replace_single_absent: "c \<notin> set s \<Longrightarrow> Replace s [c] new n = s"
  by (induction s) auto

lemma Replace_single_once:
  "c \<in> set s \<Longrightarrow>
   Replace s [c] new 1 = takeWhile (\<lambda>x. x \<noteq> c) s @ new @ tl (dropWhile (\<lambda>x. x \<noteq> c) s)"
  by (induction s) (auto simp: Replace_zero Replace_single_absent)

lemma Replace_single_all:
  "n < 0 \<Longrightarrow> Replace s [c] new n = concat (map (\<lambda>x. if x = c then new else [x]) s)"
  by (induction s arbitrary: n) auto

lemma splitFrom_nonempty: "splitFrom piece s sep n \<noteq> []"
  by (induction piece s sep n rule: splitFrom.induct) auto

lemma at_last: "xs \<noteq> [] \<Longrightarrow> at xs (int (length xs) - 1) = Some (last xs)"
  by (cases xs rule: rev_cases) (auto simp: at_def nth_append)

lemma IndexFrom_range: "IndexFrom i s old = - 1 \<or> int i \<le> IndexFrom i s old"
  by (induction s arbitrary: i) (auto, force)

lemma Replace_once_at_IndexFrom:
  "old \<noteq> [] \<Longrightarrow> IndexFrom i s old = int i + int k \<Longrightarrow>
   prefix old (drop k s) \<and> Replace s old new 1 = take k s @ new @ drop (k + length old) s"
proof (induction s arbitrary: i k)
  case Nil
  then show ?case by simp
next
  case (Cons c cs)
  show ?case
  proof (cases "prefix old (c # cs)")
    case True
    with Cons.prems have "k = 0" by simp
    with True Cons.prems show ?thesis
      by (cases old) (auto simp: Replace_zero)
  next
    case False
    with Cons.prems have ix: "IndexFrom (Suc i) cs old = int i + int k" by simp
    from IndexFrom_range[of "Suc i" cs old] ix have "k \<noteq> 0" by auto
    then obtain k' where k: "k = Suc k'" by (cases k) auto
    with ix have "IndexFrom (Suc i) cs old = int (Suc i) + int k'" by simp
    from Cons.IH[OF Cons.prems(1) this] False k show ?thesis by simp
  qed
qed

lemma Count_nonneg: "0 \<le> Count s sep"
  by (induction s sep rule: Count.induct) auto

lemma Count_pos_IndexFrom:
  "0 < Count s old \<Longrightarrow> \<exists>k. IndexFrom i s old = int i + int k"
proof (induction s arbitrary: i)
  case Nil
  then show ?case by simp
next
  case (Cons c cs)
  show ?case
  proof (cases "prefix old (c # cs)")
    case True
    then show ?thesis by (auto intro: exI[of _ 0])
  next
    case False
    with Cons.prems have "0 < Count cs old" by simp
    from Cons.IH[OF this, of "Suc i"]
    obtain k where "IndexFrom (Suc i) cs old = int (Suc i) + int k" by blast
    with False show ?thesis by (auto intro: exI[of _ "Suc k"])
  qed
qed

lemma Count_pos_nonempty: "0 < Count s old \<Longrightarrow> old \<noteq> []"
  by (induction s old rule: Count.induct) (auto split: if_splits)

text \<open>
  Where \<open>old\<close> occurs, \<^verbatim>\<open>Replace\<close> with \<open>n = 1\<close> rewrites the occurrence that
  \<^verbatim>\<open>Index\<close> finds, the first one.
\<close>

lemma Replace_first_occurrence:
  assumes "0 < Count s old"
  shows "\<exists>pre post. s = pre @ old @ post \<and> Index s old = int (length pre)
           \<and> Replace s old new 1 = pre @ new @ post"
proof -
  from assms have ne: "old \<noteq> []" by (rule Count_pos_nonempty)
  from Count_pos_IndexFrom[OF assms, of 0]
  obtain k where k: "IndexFrom 0 s old = int 0 + int k" by blast
  from Replace_once_at_IndexFrom[OF ne k, of new]
  have p: "prefix old (drop k s)"
    and r: "Replace s old new 1 = take k s @ new @ drop (k + length old) s"
    by auto
  from p obtain zs where zs: "drop k s = old @ zs" by (auto simp: prefix_def)
  have kl: "k \<le> length s"
  proof (rule ccontr)
    assume "\<not> k \<le> length s"
    then have "drop k s = []" by simp
    with zs ne show False by simp
  qed
  have s: "s = take k s @ old @ zs" using zs by (metis append_take_drop_id)
  have d: "drop (k + length old) s = zs"
    using zs by (metis add.commute append_eq_conv_conj drop_drop)
  from kl have l: "length (take k s) = k" by simp
  show ?thesis
    apply (rule exI[of _ "take k s"], rule exI[of _ zs])
    using s r d l k by (simp add: Index_def)
qed

section \<open>Nickname derivation: the examples and the panic\<close>

text \<open>
  The nickname of \<^verbatim>\<open>Jane (Janey) Doe\<close> is made from the text between the parentheses
  alone, \<^verbatim>\<open>Janey\<close>, which is both the first and the last name: it is \<^verbatim>\<open>jjaney\<close>, not
  \<^verbatim>\<open>jdoe\<close>.
\<close>

theorem generateNick_alias_counterexample:
  "generateNick id ''Jane (Janey) Doe'' \<noteq> Returned ''jdoe''"
  by (simp add: go_simps mapRunes_def generateNick_def andThen_def)

text \<open>
  Claim C7, amended. \<^verbatim>\<open>generateNick("Jane Doe")\<close> is \<^verbatim>\<open>jdoe\<close>;
  \<^verbatim>\<open>generateNick("Jane (Janey) Doe")\<close> is derived from \<^verbatim>\<open>Janey\<close>, the parenthesized part
  alone, and is \<^verbatim>\<open>jjaney\<close>; a name without a space is returned unchanged; the two bytes
  of U+00F8 decode to that rune, which \<^verbatim>\<open>mapRunes\<close> sends to \<^verbatim>\<open>o\<close>. This holds whatever
  the library's lower-casing of non-ASCII strings is.
\<close>

theorem generateNick_examples:
  "generateNick U ''Jane Doe'' = Returned ''jdoe''
   \<and> generateNick U ''Jane (Janey) Doe'' = Returned ''jjaney''
   \<and> (CHR '' '' \<notin> set name \<longrightarrow> generateNick U name = Returned name)
   \<and> runes [CHR 0xC3, CHR 0xB8] = [0xF8]
   \<and> mapRunes 0xF8 = byte CHR ''o''
   \<and> Map mapRunes [CHR 0xC3, CHR 0xB8] = ''o''"
proof -
  have 1: "generateNick U ''Jane Doe'' = Returned ''jdoe''"
    by (simp add: go_simps mapRunes_def generateNick_def andThen_def)
  have 2: "generateNick U ''Jane (Janey) Doe'' = Returned ''jjaney''"
    by (simp add: go_simps mapRunes_def generateNick_def andThen_def)
  have 3: "CHR '' '' \<notin> set name \<longrightarrow> generateNick U name = Returned name"
    by (simp add: generateNick_def Index_single_none)
  have 4: "runes [CHR 0xC3, CHR 0xB8] = [0xF8]"
    by (simp add: go_simps)
  have 5: "mapRunes 0xF8 = byte CHR ''o''"
    by (simp add: go_simps mapRunes_def)
  have 6: "Map mapRunes [CHR 0xC3, CHR 0xB8] = ''o''"
    by (simp add: go_simps mapRunes_def)
  from 1 2 3 4 5 6 show ?thesis by blast
qed

theorem generateNick_examples_witness:
  "CHR '' '' \<notin> set ''Jane'' \<and> generateNick id ''Jane'' = Returned ''Jane''"
  using generateNick_examples [of id "''Jane''"] by simp

text \<open>
  Claim C10. \<^verbatim>\<open>generateNick\<close> is partial. A name that begins with a space, and has no
  pair of parentheses, has an empty first token: \<^verbatim>\<open>firstname[0]\<close> is out of range and the
  function panics. So does a name whose parenthesized alias begins with a space.
\<close>

theorem generateNick_partial:
  "((CHR ''('' \<notin> set rest \<or> CHR '')'' \<notin> set rest)
      \<longrightarrow> generateNick U (CHR '' '' # rest) = Panicked IndexOutOfRange)
   \<and> generateNick U ''Jane ( Janey)'' = Panicked IndexOutOfRange"
proof -
  have paren: "generateNick U ''Jane ( Janey)'' = Panicked IndexOutOfRange"
    by (simp add: go_simps mapRunes_def generateNick_def andThen_def)
  have leading: "generateNick U (CHR '' '' # rest) = Panicked IndexOutOfRange"
    if h: "CHR ''('' \<notin> set rest \<or> CHR '')'' \<notin> set rest"
  proof -
    let ?name = "CHR '' '' # rest"
    have sp: "Index ?name '' '' \<noteq> - 1"
      by (simp add: Index_single_none)
    from h have par: "\<not> (Index ?name ''('' \<noteq> - 1 \<and> Index ?name '')'' \<noteq> - 1)"
      by (simp add: Index_single_none)
    obtain ys where sn: "SplitN ?name '' '' (- 1) = [] # ys"
      by (simp add: SplitN_def)
    have l: "at ([] # ys) (int (length ([] # ys)) - 1) = Some (last ([] # ys))"
      by (rule at_last) simp
    have f: "at ([] # ys) 0 = Some []"
      by (simp add: at_def)
    have e: "at ([]::string) 0 = None"
      by (simp add: at_def)
    show ?thesis
      unfolding generateNick_def using sp par
      by (simp only: sn l f e if_False if_True outcome.case option.case prod.case Let_def
            simp_thms andThen_def)
  qed
  from paren leading show ?thesis by blast
qed

theorem generateNick_partial_witness:
  "CHR ''('' \<notin> set ''Doe''
   \<and> generateNick id '' Doe'' = Panicked IndexOutOfRange"
  using generateNick_partial [of "''Doe''" id] by simp

section \<open>The format of a message\<close>

lemma indented_Replace: "Replace s newline (newline @ ''      '') (- 1) = indented s"
  unfolding newline_def indented_def by (simp add: Replace_single_all cong: if_cong)

lemma Count_leadStar: "Count (leadStar @ s) (newline @ newline) = Count s (newline @ newline)"
  by (simp add: leadStar_def newline_def)

lemma Replace_leadStar:
  "Replace (leadStar @ s) (newline @ newline) new n
     = leadStar @ Replace s (newline @ newline) new n"
  by (simp add: leadStar_def newline_def)

lemma indented_leadStar: "indented (leadStar @ s) = leadStar @ indented s"
  by (simp add: leadStar_def indented_def)

lemma formatMsg_alt:
  "formatMsg msg =
     leadStar @ indented (if Count msg (newline @ newline) = 1
                          then Replace msg (newline @ newline) newline 1 else msg)"
  by (simp add: formatMsg_def Let_def Count_leadStar Replace_leadStar indented_Replace
        indented_leadStar)

lemma Count_le_blankLines: "Count s (newline @ newline) \<le> int (blankLines s)"
proof (induction s rule: induct_list012)
  case 1
  then show ?case by simp
next
  case (2 x)
  then show ?case by (simp add: newline_def)
next
  case (3 x y zs)
  have m: "blankLines zs \<le> blankLines (y # zs)" by (cases zs) auto
  from 3 m show ?case by (auto simp: newline_def)
qed

lemma blankLines_Count_pos: "0 < blankLines s \<Longrightarrow> 0 < Count s (newline @ newline)"
proof (induction s rule: induct_list012)
  case 1
  then show ?case by simp
next
  case (2 x)
  then show ?case by simp
next
  case (3 x y zs)
  from Count_nonneg[of zs "newline @ newline"] 3 show ?case
    by (auto simp: newline_def split: if_splits)
qed

text \<open>
  What the code does on every message. The bullet is put before the message. If
  \<^verbatim>\<open>strings.Count\<close> finds exactly one pair of consecutive newlines, the first pair, the
  one \<^verbatim>\<open>Index\<close> finds, becomes a single newline; otherwise nothing is removed. Every
  newline that remains is then followed by the continuation indent. A message with
  exactly one blank line is counted as one pair, so it loses that blank line, as the
  comment above the guard says (\<^verbatim>\<open>Where there is one blank line, remove it\<close>).
\<close>

lemma formatMsg_cases:
  "(Count msg (newline @ newline) = 1 \<longrightarrow>
      (\<exists>pre post. msg = pre @ newline @ newline @ post
         \<and> Index msg (newline @ newline) = int (length pre)
         \<and> formatMsg msg = leadStar @ indented (pre @ newline @ post)))
   \<and> (Count msg (newline @ newline) \<noteq> 1 \<longrightarrow> formatMsg msg = leadStar @ indented msg)
   \<and> (blankLines msg = 1 \<longrightarrow> Count msg (newline @ newline) = 1)
   \<and> (2 \<le> Count msg (newline @ newline) \<longrightarrow> 2 \<le> blankLines msg)"
proof -
  have a: "\<exists>pre post. msg = pre @ newline @ newline @ post
         \<and> Index msg (newline @ newline) = int (length pre)
         \<and> formatMsg msg = leadStar @ indented (pre @ newline @ post)"
    if c: "Count msg (newline @ newline) = 1"
  proof -
    from c have "0 < Count msg (newline @ newline)" by simp
    from Replace_first_occurrence[OF this, of newline]
    obtain pre post where m: "msg = pre @ (newline @ newline) @ post"
      and i: "Index msg (newline @ newline) = int (length pre)"
      and r: "Replace msg (newline @ newline) newline 1 = pre @ newline @ post"
      by blast
    from c r have "formatMsg msg = leadStar @ indented (pre @ newline @ post)"
      by (simp add: formatMsg_alt)
    with m i show ?thesis by auto
  qed
  have b: "Count msg (newline @ newline) \<noteq> 1 \<longrightarrow> formatMsg msg = leadStar @ indented msg"
    by (simp add: formatMsg_alt)
  have c: "blankLines msg = 1 \<longrightarrow> Count msg (newline @ newline) = 1"
    using Count_le_blankLines[of msg] blankLines_Count_pos[of msg] by auto
  have d: "2 \<le> Count msg (newline @ newline) \<longrightarrow> 2 \<le> blankLines msg"
    using Count_le_blankLines[of msg] by auto
  from a b c d show ?thesis by blast
qed

lemma formatMsg_one_blank_line:
  "blankLines (''a'' @ newline @ newline @ ''b'') = 1
   \<and> formatMsg (''a'' @ newline @ newline @ ''b'') = leadStar @ ''a'' @ newline @ ''      b''"
  by (simp add: newline_def indented_def formatMsg_alt leadStar_def)

text \<open>
  Claim C8 says that a message with two or more blank lines keeps all of them, the blank
  line being removed only where there is exactly one. The guard of the removal compares
  with 1 the number of pairs of newlines that \<^verbatim>\<open>strings.Count\<close> finds, and
  \<^verbatim>\<open>strings.Count\<close> counts instances that do not overlap. The message made of
  \<^verbatim>\<open>a\<close>, three newlines and \<^verbatim>\<open>b\<close> has two blank lines, and three newlines in a row
  hold only one such instance: the guard holds, one newline is removed, and the output
  keeps one of the two blank lines instead of both.
\<close>

theorem formatMsg_three_newlines:
  "blankLines (''a'' @ newline @ newline @ newline @ ''b'') = 2
   \<and> Count (leadStar @ ''a'' @ newline @ newline @ newline @ ''b'') (newline @ newline) = 1
   \<and> formatMsg (''a'' @ newline @ newline @ newline @ ''b'')
       = leadStar @ ''a'' @ newline @ ''      '' @ newline @ ''      b''
   \<and> formatMsg (''a'' @ newline @ newline @ newline @ ''b'')
       \<noteq> leadStar @ indented (''a'' @ newline @ newline @ newline @ ''b'')"
  by (simp add: newline_def indented_def formatMsg_def leadStar_def)

section \<open>The resolver and its sources\<close>

lemma andThen_Returned [simp]: "andThen (Returned x) f = f x"
  by (simp add: andThen_def)

lemma andThen_Panicked [simp]: "andThen (Panicked p) f = Panicked p"
  by (simp add: andThen_def)

lemma andThen_Exited [simp]: "andThen (Exited c) f = Exited c"
  by (simp add: andThen_def)

lemma andThen_assoc: "andThen (andThen m f) g = andThen m (\<lambda>x. andThen (f x) g)"
  by (cases m) simp_all

lemma andThen_case_sum:
  "andThen (case_sum f g x) k = case_sum (\<lambda>a. andThen (f a) k) (\<lambda>b. andThen (g b) k) x"
  by (cases x) simp_all

lemma andThen_ReturnedE:
  assumes "andThen m f = Returned y"
  obtains x where "m = Returned x" and "f x = Returned y"
  using assms by (cases m) auto

text \<open>
  Each source makes one request, to its own URL, and leaves the rest of the state alone:
  its result is its answer to the requests made before.
\<close>

lemma people_eq:
  "nickToNameAndEmailWithUrl E ps nick url =
     andThen (peopleAnswer E (requests ps) nick url)
       (\<lambda>r. Returned (r, ps\<lparr>requests := requests ps @ [url]\<rparr>))"
  by (simp add: nickToNameAndEmailWithUrl_def peopleAnswer_def asked_def Let_def andThen_def
      split: response.splits outcome.splits)

lemma listBox_eq:
  "nickToNameFromListBox E ps nick url =
     andThen (listBoxAnswer E (requests ps) nick url)
       (\<lambda>r. Returned (r, ps\<lparr>requests := requests ps @ [url]\<rparr>))"
  by (simp add: nickToNameFromListBox_def listBoxAnswer_def getWebPageTokenizer_def asked_def
      split: response.splits)

lemma email_eq:
  "nameToEmailWithUrl E ps fullname url =
     andThen (emailAnswer E (requests ps) fullname url)
       (\<lambda>r. Returned (r, ps\<lparr>requests := requests ps @ [url]\<rparr>))"
  by (simp add: nameToEmailWithUrl_def emailAnswer_def getWebPageTokenizer_def asked_def
      split: response.splits)

text \<open>
  On a handle that the cache does not hold, the program is the walk over the four
  strategies: the laws of \<open>andThen\<close> bring both sides to the same chain of answers.
\<close>

lemma resolve_miss:
  assumes miss: "cacheLookup ps nick = None"
  shows "nickToNameAndEmail E ps nick = resolveSpec E ps nick"
proof -
  define ps0 where
    "ps0 = (if nickCache ps = None then ps\<lparr>nickCache := Some Map.empty\<rparr> else ps)"
  have c0: "nickCache ps0 = Some (cacheOf ps)"
    by (auto simp: ps0_def cacheOf_def)
  have r0: "requests ps0 = requests ps"
    by (simp add: ps0_def)
  have l0: "cacheLookup ps0 nick = None"
    using miss by (auto simp: ps0_def cacheLookup_def)
  have rem: "\<And>tr. remember (ps0\<lparr>requests := requests ps @ tr\<rparr>) nick
      = (\<lambda>v. Returned (v, ps\<lparr>nickCache := Some ((cacheOf ps)(nick \<mapsto> v)),
                               requests := requests ps @ tr\<rparr>))"
    by (rule ext) (auto simp: remember_def cacheStore_def c0 ps0_def cacheOf_def)
  show ?thesis
    unfolding nickToNameAndEmail_def ps0_def[symmetric] Let_def
    apply (simp only: l0 option.case people_eq listBox_eq email_eq r0)
    apply (simp add: resolveSpec_def sourceA_def sourceB_def sourceC_def sourceD_def)
    apply (simp add: andThen_assoc andThen_case_sum rem Let_def cong: sum.case_cong)
    done
qed

text \<open>
  In \<^verbatim>\<open>nickToNameFromListBox\<close> the tag name and the nick found are read from the same
  token, so the list box gives a name to no handle but \<^verbatim>\<open>option\<close>.
\<close>

lemma listBoxLoop_option: "listBoxLoop nick sc = Inr found_name \<Longrightarrow> nick = ''option''"
proof (induction nick sc rule: listBoxLoop.induct)
  case (1 nick sc)
  obtain b sc1 where sk: "Skip sc 1 = (b, sc1)" by (cases "Skip sc 1")
  show ?case
  proof (cases "b \<and> TokenText sc1 = ''option'' \<and> nick = ''option''")
    case True
    then show ?thesis by simp
  next
    case False
    with "1.prems" sk have b: b and rec: "listBoxLoop nick sc1 = Inr found_name"
      by (auto simp: listBoxLoop.simps[of nick sc] Let_def split: if_splits bool.splits)
    from b sk have sk': "(True, sc1) = Skip sc 1" by simp
    from False b have "TokenText sc1 \<noteq> ''option'' \<or> nick \<noteq> TokenText sc1" by auto
    then show ?thesis
    proof
      assume n: "TokenText sc1 \<noteq> ''option''"
      from "1.IH"(2)[OF sk' refl refl n rec] show ?thesis .
    next
      assume n: "nick \<noteq> TokenText sc1"
      show ?thesis
      proof (cases "TokenText sc1 = ''option''")
        case True
        from "1.IH"(1)[OF sk' refl refl True refl n rec] show ?thesis .
      next
        case False
        from "1.IH"(2)[OF sk' refl refl False rec] show ?thesis .
      qed
    qed
  qed
qed

lemma firstSuccess_traces:
  assumes "firstSuccess [sourceA, sourceB, sourceC, sourceD] E rq nick = Returned (tr, w)"
  shows "tr \<in> {[TU_URL], [TU_URL, DEV_URL], [TU_URL, DEV_URL, PKG_URL, TU_URL],
               [TU_URL, DEV_URL, PKG_URL, TU_URL, DEV_URL],
               [TU_URL, DEV_URL, PKG_URL, FEL_URL]}"
  using assms
  apply (simp add: sourceA_def sourceB_def sourceC_def sourceD_def andThen_assoc
          andThen_case_sum cong: sum.case_cong)
  apply (erule andThen_ReturnedE)
  apply (auto split: sum.splits elim!: andThen_ReturnedE)
  done

lemma resolveSpec_Returned:
  assumes "resolveSpec E ps nick = Returned (r, ps')"
  obtains tr where "ps' = ps\<lparr>nickCache := Some ((cacheOf ps)(nick \<mapsto> r)),
                               requests := requests ps @ tr\<rparr>"
  using assms unfolding resolveSpec_def
  by (auto elim!: andThen_ReturnedE simp: Let_def)

lemmas url_simps = TU_URL_def DEV_URL_def PKG_URL_def FEL_URL_def

lemmas scan_simps = listBoxLoop.simps seekLabel.simps emailLoop.simps TokenText_def
  getWebPageTokenizer_def nickToNameFromListBox_def nameToEmailWithUrl_def
  nickToNameAndEmailWithUrl_def emailOfTag_def emailOfToken_def dquote_def

lemmas resolver_simps = nickToNameAndEmail_def cacheLookup_def cacheStore_def remember_def

lemma resolve_cached_again:
  assumes ret: "nickToNameAndEmail E ps nick = Returned (r, ps')"
  shows "cacheLookup ps' nick = Some r \<and> nickCache ps' \<noteq> None"
proof (cases "cacheLookup ps nick")
  case None
  with ret have "resolveSpec E ps nick = Returned (r, ps')"
    by (simp add: resolve_miss)
  then obtain tr where "ps' = ps\<lparr>nickCache := Some ((cacheOf ps)(nick \<mapsto> r)),
                               requests := requests ps @ tr\<rparr>"
    by (rule resolveSpec_Returned)
  then show ?thesis by (simp add: cacheLookup_def)
next
  case (Some v0)
  then obtain m where m: "nickCache ps = Some m" and mv: "m nick = Some v0"
    by (auto simp: cacheLookup_def split: option.splits)
  from ret Some m have "r = v0" "ps' = ps"
    by (auto simp: nickToNameAndEmail_def)
  with Some m show ?thesis by simp
qed

lemma resolve_hit:
  "cacheLookup ps nick = Some v \<Longrightarrow> nickCache ps \<noteq> None \<Longrightarrow>
   nickToNameAndEmail E ps nick = Returned (v, ps)"
  by (auto simp: nickToNameAndEmail_def)

text \<open>
  When each of the four sources returns an error, the handle comes back unmodified, is
  stored in the cache, and the four pages have been requested in order.
\<close>

lemma resolve_exhausted:
  assumes "cacheLookup ps nick = None"
    and "peopleAnswer E (requests ps) nick TU_URL = Returned (Inl e1)"
    and "peopleAnswer E (requests ps @ [TU_URL]) nick DEV_URL = Returned (Inl e2)"
    and "listBoxAnswer E (requests ps @ [TU_URL, DEV_URL]) nick PKG_URL = Returned (Inl e3)"
    and "peopleAnswer E (requests ps @ [TU_URL, DEV_URL, PKG_URL]) nick FEL_URL
           = Returned (Inl e4)"
  shows "nickToNameAndEmail E ps nick =
           Returned (nick, ps\<lparr>nickCache := Some ((cacheOf ps)(nick \<mapsto> nick)),
                               requests := requests ps @ [TU_URL, DEV_URL, PKG_URL, FEL_URL]\<rparr>)"
  using assms
  by (simp add: resolve_miss resolveSpec_def sourceA_def sourceB_def sourceC_def sourceD_def)

section \<open>The resolver: failures of a fetch\<close>

lemma offline_always_panics:
  assumes "cacheLookup ps nick = None"
  shows "nickToNameAndEmail offline ps nick = Panicked NilDereference"
proof -
  have a: "peopleAnswer offline rq nick url = Returned (Inl GetError)" for rq url
    by (simp add: peopleAnswer_def nickToNameAndEmailWithUrl_def offline_def)
  have c: "listBoxAnswer offline rq nick url = Panicked NilDereference" for rq url
    by (simp add: listBoxAnswer_def nickToNameFromListBox_def getWebPageTokenizer_def
          offline_def)
  show ?thesis
    by (simp add: resolve_miss[OF assms] resolveSpec_def sourceA_def sourceB_def sourceC_def a c)
qed

text \<open>
  The slice of \<^verbatim>\<open>outputLog\<close> is made exactly when the capacity is between 0 and
  \<open>2^44\<close> and the system grants the memory; a count above \<open>2^44\<close> ends the process
  before \<^verbatim>\<open>svn\<close> is run.
\<close>

lemma absInt_nonneg: "0 \<le> x \<Longrightarrow> absInt x = x"
  by (simp add: absInt_def)

lemma absInt_minus_one: "absInt (- 1) = 1"
  by (simp add: absInt_def wrapInt_def)

lemma absInt_least: "absInt (- (2 ^ 63)) = - (2 ^ 63)"
  by (simp add: absInt_def wrapInt_def)

lemma makeStrings_Returned:
  "makeStrings E c = Returned [] \<longleftrightarrow> 0 \<le> c \<and> c \<le> 2 ^ 44 \<and> allocate E (stringSize * c)"
  by (simp add: makeStrings_def maxAlloc_def stringSize_def)

lemma outputLog_cap_out_of_range:
  assumes "2 ^ 44 < n"
  shows "outputLog E ps n = Panicked MakeSliceCap"
proof -
  from assms have "0 \<le> n" by (rule order_trans[rotated, OF less_imp_le]) simp
  with assms have "makeStrings E (absInt n) = Panicked MakeSliceCap"
    by (simp add: absInt_nonneg makeStrings_def maxAlloc_def stringSize_def)
  then show ?thesis by (simp add: outputLog_def)
qed

lemma main_cap_out_of_range:
  assumes "atoi E a = Some n" and "2 ^ 44 < n"
  shows "main E ps (plain [a]) = Panicked MakeSliceCap
         \<and> exitStatus (main E ps (plain [a])) = 2"
proof -
  from assms(2) have "0 < n" by (rule less_trans[rotated]) simp
  with assms(1) have "main E ps (plain [a]) = outputLog E ps n"
    by (simp add: main_def plain_def at_def)
  with outputLog_cap_out_of_range[OF assms(2)] show ?thesis
    by (simp add: exitStatus_def)
qed

lemma logLoop_panics:
  assumes "prettyDate (Date e) = Returned d"
    and "nickToNameAndEmail E ps (Author e) = Panicked p"
  shows "logLoop E ps g out (e # rest) = Panicked p"
  using assms by simp

text \<open>
  Claim C1 says that resolve returns normally for every handle. It does not when the
  network is down: the two structured scans return their errors, then
  \<^verbatim>\<open>nickToNameFromListBox\<close> receives \<^verbatim>\<open>nil, nil\<close> from \<^verbatim>\<open>getWebPageTokenizer\<close> and
  panics on \<^verbatim>\<open>defer body.Close()\<close>. Nothing recovers the panic, so the call of
  \<^verbatim>\<open>nickToNameAndEmail\<close> does not return, and \<^verbatim>\<open>outputLog\<close> on a log with an entry
  ends the process with status 2.
\<close>

theorem offline_resolve_panics:
  "nickToNameAndEmail offline fresh ''arodseth'' = Panicked NilDereference
   \<and> outputLog unreachableEnv fresh 3 = Panicked NilDereference
   \<and> exitStatus (outputLog unreachableEnv fresh 3) = 2"
proof -
  have 1: "nickToNameAndEmail offline fresh ''arodseth'' = Panicked NilDereference"
    by (simp add: resolver_simps scan_simps offline_def fresh_def)
  have 2: "nickToNameAndEmail unreachableEnv fresh ''alice'' = Panicked NilDereference"
    by (simp add: resolver_simps scan_simps unreachableEnv_def fresh_def)
  have 3: "getSvnLog unreachableEnv 3 = (exampleLog, False, [])"
    by (simp add: getSvnLog_def getSvnLogXMLbytes_def unreachableEnv_def)
  have d: "prettyDate ''2024-01-01T09:30:00.000000Z'' = Returned ''2024-01-01''"
    by (simp add: prettyDate_def go_simps)
  have m: "makeStrings unreachableEnv (absInt 3) = Returned []"
    by (simp add: makeStrings_Returned absInt_nonneg stringSize_def unreachableEnv_def)
  have 4: "outputLog unreachableEnv fresh 3 = Panicked NilDereference"
    unfolding outputLog_def m 3 exampleLog_def
    by (simp add: logLoop_panics[where d = "''2024-01-01''"] d 2 del: logLoop.simps)
  from 1 4 show ?thesis by (simp add: exitStatus_def)
qed

text \<open>
  Claim C2 says that no failure of a fetch aborts the resolution. A failed request of the
  list box page does, and so does a failed request of a page scanned by labels, in the
  functions themselves and in the resolver that calls them (on the network \<open>flaky\<close> the
  list box matches and the fourth request, for the labelled scan, fails). So does a page
  of an unexpected shape in the structured scan: a \<^verbatim>\<open>name\<close> tag with fewer than four
  pieces between double quotes.
\<close>

theorem failed_fetch_aborts:
  "nickToNameFromListBox offline fresh ''arodseth'' PKG_URL = Panicked NilDereference
   \<and> nameToEmailWithUrl offline fresh ''Otto Normal'' TU_URL = Panicked NilDereference
   \<and> nickToNameAndEmail flaky fresh ''option'' = Panicked NilDereference
   \<and> nickToNameAndEmail (serving brokenPage []) fresh ''arodseth''
       = Panicked IndexOutOfRange"
proof -
  have 1: "nickToNameFromListBox offline fresh ''arodseth'' PKG_URL = Panicked NilDereference"
    by (simp add: scan_simps offline_def fresh_def)
  have 2: "nameToEmailWithUrl offline fresh ''Otto Normal'' TU_URL = Panicked NilDereference"
    by (simp add: scan_simps offline_def fresh_def)
  have 3: "nickToNameAndEmail flaky fresh ''option'' = Panicked NilDereference"
    by (simp add: resolver_simps scan_simps flaky_def fresh_def ottoTexts_def go_simps)
  have 4: "nickToNameAndEmail (serving brokenPage []) fresh ''arodseth''
             = Panicked IndexOutOfRange"
    by (simp add: resolver_simps scan_simps serving_def fresh_def brokenPage_def go_simps)
  from 1 2 3 4 show ?thesis by blast
qed

section \<open>The resolver: order of the sources and memoization\<close>

text \<open>
  Claim C3. For a handle that the cache does not hold, the program is the walk over the
  ordered strategies Source A (trusted users), Source B (developers), Source C (the list
  box, with its two look-ups by full name on the pages of A and then B, the email
  appended when found and the bare name returned otherwise) and Source D (fellows): the
  first success wins and the handle itself is the result when none succeeds. When the
  call returns, the URLs it requested are, in order, one of the five sequences that this
  walk allows.
\<close>

theorem resolve_order:
  assumes miss: "cacheLookup ps nick = None"
  shows "nickToNameAndEmail E ps nick = resolveSpec E ps nick
         \<and> (nickToNameAndEmail E ps nick = Returned (r, ps') \<longrightarrow>
              (\<exists>tr. requests ps' = requests ps @ tr
                 \<and> tr \<in> {[TU_URL], [TU_URL, DEV_URL], [TU_URL, DEV_URL, PKG_URL, TU_URL],
                          [TU_URL, DEV_URL, PKG_URL, TU_URL, DEV_URL],
                          [TU_URL, DEV_URL, PKG_URL, FEL_URL]}))"
proof -
  have eq: "nickToNameAndEmail E ps nick = resolveSpec E ps nick"
    using miss by (rule resolve_miss)
  have tr: "\<exists>tr. requests ps' = requests ps @ tr
                 \<and> tr \<in> {[TU_URL], [TU_URL, DEV_URL], [TU_URL, DEV_URL, PKG_URL, TU_URL],
                          [TU_URL, DEV_URL, PKG_URL, TU_URL, DEV_URL],
                          [TU_URL, DEV_URL, PKG_URL, FEL_URL]}"
    if ret: "nickToNameAndEmail E ps nick = Returned (r, ps')"
  proof -
    from ret eq have "resolveSpec E ps nick = Returned (r, ps')" by simp
    then obtain t w where
      fs: "firstSuccess [sourceA, sourceB, sourceC, sourceD] E (requests ps) nick
             = Returned (t, w)"
      and ps': "ps' = ps\<lparr>nickCache := Some ((cacheOf ps)(nick \<mapsto> r)),
                          requests := requests ps @ t\<rparr>"
      unfolding resolveSpec_def by (auto elim!: andThen_ReturnedE simp: Let_def)
    from firstSuccess_traces[OF fs] ps' show ?thesis by (intro exI[of _ t]) simp
  qed
  from eq tr show ?thesis by blast
qed

theorem resolve_order_witness:
  "cacheLookup fresh ''option'' = None
   \<and> nickToNameAndEmail (serving '''' ottoTexts) fresh ''option''
       = Returned (''Otto Normal <otto@example.org>'',
           fresh\<lparr>nickCache := Some [''option'' \<mapsto> ''Otto Normal <otto@example.org>''],
                 requests := [TU_URL, DEV_URL, PKG_URL, TU_URL]\<rparr>)
   \<and> resolveSpec (serving '''' ottoTexts) fresh ''option''
       = Returned (''Otto Normal <otto@example.org>'',
           fresh\<lparr>nickCache := Some [''option'' \<mapsto> ''Otto Normal <otto@example.org>''],
                 requests := [TU_URL, DEV_URL, PKG_URL, TU_URL]\<rparr>)"
proof -
  have h: "cacheLookup fresh ''option'' = None"
    by (simp add: cacheLookup_def fresh_def)
  have v: "nickToNameAndEmail (serving '''' ottoTexts) fresh ''option''
       = Returned (''Otto Normal <otto@example.org>'',
           fresh\<lparr>nickCache := Some [''option'' \<mapsto> ''Otto Normal <otto@example.org>''],
                 requests := [TU_URL, DEV_URL, PKG_URL, TU_URL]\<rparr>)"
    by (simp add: resolver_simps scan_simps serving_def fresh_def ottoTexts_def go_simps
          eval_nat_numeral)
  from resolve_order[OF h, of "serving '''' ottoTexts"] h v show ?thesis by simp
qed

text \<open>
  Claim C4. Whenever resolve returns, with a name and email, a bare name or the handle
  itself, the result is in the cache under the handle. A second call then returns the
  same value and the same state, whatever the network would answer: it makes no request.
  What the cache held before the call it still holds, so a handle that has been resolved
  is never looked up remotely again in the process.
\<close>

theorem resolve_memoized:
  assumes ret: "nickToNameAndEmail E ps nick = Returned (r, ps')"
  shows "cacheLookup ps' nick = Some r
         \<and> nickToNameAndEmail E' ps' nick = Returned (r, ps')
         \<and> (cacheLookup ps k = Some v \<longrightarrow> cacheLookup ps' k = Some v)"
proof -
  from resolve_cached_again[OF ret]
  have a: "cacheLookup ps' nick = Some r" and n: "nickCache ps' \<noteq> None" by auto
  from a n have b: "nickToNameAndEmail E' ps' nick = Returned (r, ps')"
    by (rule resolve_hit)
  have c: "cacheLookup ps k = Some v \<longrightarrow> cacheLookup ps' k = Some v"
  proof (cases "cacheLookup ps nick")
    case None
    with ret have "resolveSpec E ps nick = Returned (r, ps')"
      by (simp add: resolve_miss)
    then obtain tr where ps': "ps' = ps\<lparr>nickCache := Some ((cacheOf ps)(nick \<mapsto> r)),
                               requests := requests ps @ tr\<rparr>"
      by (rule resolveSpec_Returned)
    from None show ?thesis
      by (auto simp: ps' cacheLookup_def cacheOf_def split: option.splits)
  next
    case (Some v0)
    then obtain m where m: "nickCache ps = Some m"
      by (auto simp: cacheLookup_def split: option.splits)
    from ret Some m have "ps' = ps"
      by (auto simp: nickToNameAndEmail_def)
    then show ?thesis by simp
  qed
  from a b c show ?thesis by blast
qed

theorem resolve_memoized_witness:
  "nickToNameAndEmail exampleEnv fresh ''alice''
       = Returned (''alice'', fresh\<lparr>nickCache := Some [''alice'' \<mapsto> ''alice''],
                      requests := [TU_URL, DEV_URL, PKG_URL, FEL_URL]\<rparr>)
   \<and> nickToNameAndEmail offline
         (fresh\<lparr>nickCache := Some [''alice'' \<mapsto> ''alice''],
                requests := [TU_URL, DEV_URL, PKG_URL, FEL_URL]\<rparr>) ''alice''
       = Returned (''alice'', fresh\<lparr>nickCache := Some [''alice'' \<mapsto> ''alice''],
                      requests := [TU_URL, DEV_URL, PKG_URL, FEL_URL]\<rparr>)"
proof -
  have h: "nickToNameAndEmail exampleEnv fresh ''alice''
       = Returned (''alice'', fresh\<lparr>nickCache := Some [''alice'' \<mapsto> ''alice''],
                      requests := [TU_URL, DEV_URL, PKG_URL, FEL_URL]\<rparr>)"
    by (simp add: resolver_simps scan_simps exampleEnv_def fresh_def go_simps)
  from resolve_memoized[OF h, of offline] h show ?thesis by simp
qed

section \<open>Email normalization\<close>

lemma dots_Count: "Count s ''.'' = int (dots s)"
  by (simp add: dots_def Count_single)

lemma firstDotToAt_Replace:
  "CHR ''.'' \<in> set s \<Longrightarrow> Replace s ''.'' ''@'' 1 = firstDotToAt s"
  by (simp add: firstDotToAt_def Replace_single_once)

lemma dots_pos: "0 < dots s \<longleftrightarrow> CHR ''.'' \<in> set s"
  by (auto simp: dots_def filter_empty_conv)

text \<open>
  The structured scan, which serves Sources A, B and D, rewrites an email with a single
  dot: on a page that gives \<^verbatim>\<open>a.liddell\<close> the identity carries \<^verbatim>\<open>a@liddell\<close>, where
  the claim leaves a value with one dot unchanged.
\<close>

theorem email_normalization_counterexample:
  "emailOfTag ''a.liddell'' = ''a@liddell''
   \<and> nickToNameAndEmailWithUrl (serving personPage []) fresh ''alice'' TU_URL
       = Returned (Inr ''Alice A <a@liddell>'', fresh\<lparr>requests := [TU_URL]\<rparr>)"
  by (simp add: scan_simps serving_def fresh_def personPage_def go_simps)

text \<open>
  Claim C6, amended. A scraped email that contains an at sign is left unchanged by both
  scans. Without an at sign: with two or more dots the first dot becomes an at sign in both
  scans (\<^verbatim>\<open>a.b.c\<close> becomes \<^verbatim>\<open>a@b.c\<close>); with exactly one dot the labelled scan
  (\<^verbatim>\<open>nameToEmailWithUrl\<close>) leaves the value unchanged and the structured scan
  (\<^verbatim>\<open>nickToNameAndEmailWithUrl\<close>) turns that dot into an at sign; without a dot both
  leave it unchanged.
\<close>

theorem email_normalization:
  "(CHR ''@'' \<in> set addr \<longrightarrow> emailOfToken addr = addr \<and> emailOfTag addr = addr)
   \<and> (CHR ''@'' \<notin> set addr \<and> 2 \<le> dots addr \<longrightarrow>
        emailOfToken addr = firstDotToAt addr \<and> emailOfTag addr = firstDotToAt addr)
   \<and> (CHR ''@'' \<notin> set addr \<and> dots addr = 1 \<longrightarrow>
        emailOfToken addr = addr \<and> emailOfTag addr = firstDotToAt addr)
   \<and> (CHR ''@'' \<notin> set addr \<and> dots addr = 0 \<longrightarrow>
        emailOfToken addr = addr \<and> emailOfTag addr = addr)
   \<and> emailOfToken ''a.b.c'' = ''a@b.c'' \<and> emailOfTag ''a.b.c'' = ''a@b.c''"
proof -
  have tok: "emailOfToken addr =
      (if CHR ''@'' \<notin> set addr \<and> 2 \<le> dots addr then firstDotToAt addr else addr)"
    using dots_pos[of addr]
    by (auto simp: emailOfToken_def Index_single_none dots_Count firstDotToAt_Replace)
  have tag: "emailOfTag addr =
      (if CHR ''@'' \<notin> set addr \<and> 1 \<le> dots addr then firstDotToAt addr else addr)"
    using dots_pos[of addr]
    by (auto simp: emailOfTag_def Contains_single firstDotToAt_Replace)
  have ex: "emailOfToken ''a.b.c'' = ''a@b.c''" "emailOfTag ''a.b.c'' = ''a@b.c''"
    by (simp_all add: emailOfToken_def emailOfTag_def go_simps)
  from tok tag ex show ?thesis by simp
qed

theorem email_normalization_witness:
  "CHR ''@'' \<notin> set ''a.b'' \<and> dots ''a.b'' = 1
   \<and> emailOfToken ''a.b'' = ''a.b'' \<and> emailOfTag ''a.b'' = ''a@b''"
  using email_normalization [of "''a.b''"]
  by (simp add: dots_def firstDotToAt_def)

section \<open>The changelog: grouping and the unreadable log\<close>

text \<open>The gathered messages are printed last one first, each on a line of its own.\<close>

lemma printGathered_rev: "printGathered items = concat (map Println (rev items))"
proof -
  have "map (\<lambda>i. items ! (length items - 1 - i)) [0..<length items] = rev items"
    by (rule nth_equalityI) (auto simp: rev_nth)
  then have "map (\<lambda>i. Println (items ! (length items - 1 - i))) [0..<length items]
               = map Println (rev items)"
    by (metis (no_types, lifting) map_map o_def map_eq_conv)
  then show ?thesis by (simp add: printGathered_def Let_def)
qed

lemma prettyDate_example:
  "prettyDate ''2024-01-01T09:30:00.000000Z'' = Returned ''2024-01-01''"
  "prettyDate ''2024-01-01T17:45:00.000000Z'' = Returned ''2024-01-01''"
  "prettyDate ''2024-01-02T08:00:00.000000Z'' = Returned ''2024-01-02''"
  by (simp_all add: prettyDate_def go_simps)

lemma TrimSpace_example:
  "TrimSpace ''msgA'' = ''msgA''"
  "TrimSpace ''msgB'' = ''msgB''"
  "TrimSpace ''msgC'' = ''msgC''"
  by (simp_all add: go_simps)

lemma formatMsg_example:
  "formatMsg ''msgA'' = leadStar @ ''msgA''"
  "formatMsg ''msgB'' = leadStar @ ''msgB''"
  "formatMsg ''msgC'' = leadStar @ ''msgC''"
  by (simp_all add: formatMsg_alt newline_def indented_def)

text \<open>
  Claim C5. The slice of capacity \<^verbatim>\<open>abs(n)\<close> is made (the capacity is between 0 and
  \<open>2^44\<close> and the system grants its 16 bytes for each string), so that \<^verbatim>\<open>svn\<close> is
  run. The log holds the three entries (2024-01-01, alice, msgA), (2024-01-01, alice,
  msgB), (2024-01-02, bob, msgC) in that order, and the resolver returns the identity
  \<open>A\<close> for alice and \<open>B\<close> for bob. Then the output is one header for 2024-01-01 and
  \<open>A\<close>, the bullet lines of msgB and then msgA, a blank line, the header for 2024-01-02
  and \<open>B\<close>, the bullet line of msgC, and a closing blank line. The second entry of alice
  is resolved from the cache.
\<close>

theorem grouping_example:
  assumes cap: "0 \<le> absInt n" "absInt n \<le> 2 ^ 44"
    and mem: "allocate E (stringSize * absInt n)"
    and svn: "runSvn E (svnCommandOf n) = Some b"
    and xml: "xmlUnmarshal E b = Inr exampleLog"
    and alice: "nickToNameAndEmail E ps ''alice'' = Returned (A, ps1)"
    and bob: "nickToNameAndEmail E ps1 ''bob'' = Returned (B, ps2)"
  shows "outputLog E ps n =
     Returned (''2024-01-01 '' @ A @ newline
               @ leadStar @ ''msgB'' @ newline
               @ leadStar @ ''msgA'' @ newline
               @ newline @ ''2024-01-02 '' @ B @ newline
               @ leadStar @ ''msgC'' @ newline
               @ newline, ps2)"
proof -
  from resolve_cached_again[OF alice]
  have again: "nickToNameAndEmail E ps1 ''alice'' = Returned (A, ps1)"
    by (auto intro: resolve_hit)
  from cap mem have made: "makeStrings E (absInt n) = Returned []"
    by (simp add: makeStrings_Returned)
  have log: "getSvnLog E n = (exampleLog, False, [])"
    by (simp add: getSvnLog_def getSvnLogXMLbytes_def svn xml)
  have loop: "logLoop E ps
      \<lparr>first = True, msgitems = [], prevdate = [], prevname = [], prevheader = []\<rparr>
      [] exampleLog
    = Returned (''2024-01-01 '' @ A @ newline
               @ leadStar @ ''msgB'' @ newline
               @ leadStar @ ''msgA'' @ newline
               @ newline @ ''2024-01-02 '' @ B @ newline,
        ps2,
        \<lparr>first = False, msgitems = [leadStar @ ''msgC''], prevdate = ''2024-01-02'',
         prevname = B, prevheader = ''2024-01-02 '' @ B\<rparr>)"
    by (simp add: exampleLog_def prettyDate_example TrimSpace_example formatMsg_example
          alice again bob printGathered_rev Println_def Let_def)
  show ?thesis
    by (simp add: outputLog_def made log loop printGathered_rev Println_def)
qed

theorem grouping_example_witness:
  "absInt 3 = 3
   \<and> allocate exampleEnv (stringSize * absInt 3)
   \<and> outputLog exampleEnv fresh 3 =
     Returned (''2024-01-01 alice'' @ newline
               @ ''    * msgB'' @ newline
               @ ''    * msgA'' @ newline
               @ newline @ ''2024-01-02 bob'' @ newline
               @ ''    * msgC'' @ newline
               @ newline,
       fresh\<lparr>nickCache := Some [''alice'' \<mapsto> ''alice'', ''bob'' \<mapsto> ''bob''],
             requests := [TU_URL, DEV_URL, PKG_URL, FEL_URL,
                          TU_URL, DEV_URL, PKG_URL, FEL_URL]\<rparr>)"
proof -
  have three: "absInt 3 = 3"
    by (simp add: absInt_nonneg)
  have mem: "allocate exampleEnv (stringSize * absInt 3)"
    by (simp add: three stringSize_def exampleEnv_def)
  have svn: "runSvn exampleEnv (svnCommandOf 3) = Some ''<log>''"
    by (simp add: exampleEnv_def)
  have xml: "xmlUnmarshal exampleEnv ''<log>'' = Inr exampleLog"
    by (simp add: exampleEnv_def)
  have alice: "nickToNameAndEmail exampleEnv fresh ''alice''
       = Returned (''alice'', fresh\<lparr>nickCache := Some [''alice'' \<mapsto> ''alice''],
                      requests := [TU_URL, DEV_URL, PKG_URL, FEL_URL]\<rparr>)"
    by (simp add: resolver_simps scan_simps exampleEnv_def fresh_def go_simps)
  have bob: "nickToNameAndEmail exampleEnv
         (fresh\<lparr>nickCache := Some [''alice'' \<mapsto> ''alice''],
                      requests := [TU_URL, DEV_URL, PKG_URL, FEL_URL]\<rparr>) ''bob''
       = Returned (''bob'',
           fresh\<lparr>nickCache := Some [''alice'' \<mapsto> ''alice'', ''bob'' \<mapsto> ''bob''],
                 requests := [TU_URL, DEV_URL, PKG_URL, FEL_URL,
                              TU_URL, DEV_URL, PKG_URL, FEL_URL]\<rparr>)"
    by (simp add: resolver_simps scan_simps exampleEnv_def fresh_def go_simps)
  from grouping_example[OF _ _ mem svn xml alice bob] three mem show ?thesis
    by (simp add: leadStar_def)
qed

text \<open>
  Claim C9. The slice of capacity \<^verbatim>\<open>abs(n)\<close> is made (the capacity is between 0 and
  \<open>2^44\<close> and the system grants its 16 bytes for each string), so that \<^verbatim>\<open>svn\<close> is
  run; the subprocess succeeds and its output is not valid XML. Then
  \<^verbatim>\<open>getSvnLog\<close> prints the error of \<^verbatim>\<open>xml.Unmarshal\<close> on standard output and returns
  no entry and a nil error; \<^verbatim>\<open>outputLog\<close> does not call \<^verbatim>\<open>os.Exit\<close>, prints no line of
  a changelog, leaves the state as it was and returns. So does \<^verbatim>\<open>main\<close>, called with a
  positive count or with no argument, and the process ends with status 0.
\<close>

theorem invalid_xml_is_success:
  assumes cap: "0 \<le> absInt n" "absInt n \<le> 2 ^ 44"
    and mem: "allocate E (stringSize * absInt n)"
    and svn: "runSvn E (svnCommandOf n) = Some b" and xml: "xmlUnmarshal E b = Inl e"
  shows "getSvnLog E n = ([], False, ''error: '' @ e)
         \<and> outputLog E ps n = Returned (''error: '' @ e, ps)
         \<and> exitStatus (outputLog E ps n) = 0
         \<and> (atoi E a = Some n \<and> 0 < n \<longrightarrow>
              main E ps (plain [a]) = Returned (''error: '' @ e, ps)
              \<and> exitStatus (main E ps (plain [a])) = 0)
         \<and> (n = - 1 \<longrightarrow>
              main E ps (plain []) = Returned (''error: '' @ e, ps)
              \<and> exitStatus (main E ps (plain [])) = 0)"
proof -
  from cap mem have made: "makeStrings E (absInt n) = Returned []"
    by (simp add: makeStrings_Returned)
  have log: "getSvnLog E n = ([], False, ''error: '' @ e)"
    by (simp add: getSvnLog_def getSvnLogXMLbytes_def svn xml)
  then have out: "outputLog E ps n = Returned (''error: '' @ e, ps)"
    by (simp add: outputLog_def made)
  have one: "main E ps (plain [a]) = outputLog E ps n" if "atoi E a = Some n" and "0 < n"
    using that by (simp add: main_def plain_def at_def)
  have none: "main E ps (plain []) = outputLog E ps (- 1)"
    by (simp add: main_def plain_def)
  from log out one none show ?thesis by (auto simp: exitStatus_def)
qed

theorem invalid_xml_is_success_witness:
  "absInt 5 = 5
   \<and> allocate garbledEnv (stringSize * absInt 5)
   \<and> runSvn garbledEnv (svnCommandOf 5) = Some ''not xml''
   \<and> xmlUnmarshal garbledEnv ''not xml'' = Inl ''EOF''
   \<and> atoi garbledEnv ''5'' = Some 5
   \<and> outputLog garbledEnv fresh 5 = Returned (''error: EOF'', fresh)
   \<and> main garbledEnv fresh (plain [''5'']) = Returned (''error: EOF'', fresh)
   \<and> exitStatus (main garbledEnv fresh (plain [''5''])) = 0"
proof -
  have five: "absInt 5 = 5"
    by (simp add: absInt_nonneg)
  have mem: "allocate garbledEnv (stringSize * absInt 5)"
    by (simp add: five stringSize_def garbledEnv_def)
  have svn: "runSvn garbledEnv (svnCommandOf 5) = Some ''not xml''"
    by (simp add: garbledEnv_def)
  have xml: "xmlUnmarshal garbledEnv ''not xml'' = Inl ''EOF''"
    by (simp add: garbledEnv_def)
  have num: "atoi garbledEnv ''5'' = Some 5"
    by (simp add: garbledEnv_def)
  from invalid_xml_is_success[OF _ _ mem svn xml, of fresh "''5''"] five mem svn xml num
  show ?thesis
    by (simp add: exitStatus_def)
qed

end
